theory Spec2Isabelle
  imports Complex_Main
begin

section \<open>JavaScript values\<close>

text \<open>
  The module \<^verbatim>\<open>packages/draw/canvas.mjs\<close> computes with JavaScript numbers and with
  dynamically typed payloads. A number is a finite value, an infinity or NaN. The
  operations below are exact on finite values, and the sign of zero is not part of the
  model (a zero divisor is read as \<^verbatim>\<open>+0\<close>). Where a property depends on the rounding
  of a result to a double, the result goes through \<open>rounded\<close> below.
\<close>

datatype jsnum = Fin real | PosInf | NegInf | NaN

fun js_neg :: "jsnum \<Rightarrow> jsnum" where
  "js_neg (Fin x) = Fin (- x)"
| "js_neg PosInf = NegInf"
| "js_neg NegInf = PosInf"
| "js_neg NaN = NaN"

fun js_abs :: "jsnum \<Rightarrow> jsnum" where
  "js_abs (Fin x) = Fin \<bar>x\<bar>"
| "js_abs PosInf = PosInf"
| "js_abs NegInf = PosInf"
| "js_abs NaN = NaN"

fun js_add :: "jsnum \<Rightarrow> jsnum \<Rightarrow> jsnum" where
  "js_add (Fin x) (Fin y) = Fin (x + y)"
| "js_add NaN _ = NaN"
| "js_add _ NaN = NaN"
| "js_add PosInf NegInf = NaN"
| "js_add NegInf PosInf = NaN"
| "js_add PosInf _ = PosInf"
| "js_add _ PosInf = PosInf"
| "js_add NegInf _ = NegInf"
| "js_add _ NegInf = NegInf"

definition js_sub :: "jsnum \<Rightarrow> jsnum \<Rightarrow> jsnum" where
  "js_sub a b = js_add a (js_neg b)"

text \<open>The infinity whose sign is negative exactly when the flag is set.\<close>

definition inf_of :: "bool \<Rightarrow> jsnum" where
  "inf_of negative = (if negative then NegInf else PosInf)"

fun js_mul :: "jsnum \<Rightarrow> jsnum \<Rightarrow> jsnum" where
  "js_mul (Fin x) (Fin y) = Fin (x * y)"
| "js_mul NaN _ = NaN"
| "js_mul _ NaN = NaN"
| "js_mul (Fin x) PosInf = (if x = 0 then NaN else inf_of (x < 0))"
| "js_mul (Fin x) NegInf = (if x = 0 then NaN else inf_of (0 < x))"
| "js_mul PosInf (Fin y) = (if y = 0 then NaN else inf_of (y < 0))"
| "js_mul NegInf (Fin y) = (if y = 0 then NaN else inf_of (0 < y))"
| "js_mul PosInf PosInf = PosInf"
| "js_mul PosInf NegInf = NegInf"
| "js_mul NegInf PosInf = NegInf"
| "js_mul NegInf NegInf = PosInf"

fun js_div :: "jsnum \<Rightarrow> jsnum \<Rightarrow> jsnum" where
  "js_div (Fin x) (Fin y) =
     (if y = 0 then (if x = 0 then NaN else inf_of (x < 0)) else Fin (x / y))"
| "js_div NaN _ = NaN"
| "js_div _ NaN = NaN"
| "js_div (Fin x) PosInf = Fin 0"
| "js_div (Fin x) NegInf = Fin 0"
| "js_div PosInf (Fin y) = inf_of (y < 0)"
| "js_div NegInf (Fin y) = inf_of (0 \<le> y)"
| "js_div PosInf PosInf = NaN"
| "js_div PosInf NegInf = NaN"
| "js_div NegInf PosInf = NaN"
| "js_div NegInf NegInf = NaN"

text \<open>\<^verbatim>\<open>a !== b\<close> on numbers: NaN differs from everything, itself included.\<close>

fun js_strict_neq :: "jsnum \<Rightarrow> jsnum \<Rightarrow> bool" where
  "js_strict_neq NaN _ = True"
| "js_strict_neq _ NaN = True"
| "js_strict_neq a b = (a \<noteq> b)"

text \<open>\<^verbatim>\<open>a < b\<close> on numbers: every comparison with NaN is false.\<close>

fun js_less :: "jsnum \<Rightarrow> jsnum \<Rightarrow> bool" where
  "js_less (Fin x) (Fin y) = (x < y)"
| "js_less NaN _ = False"
| "js_less _ NaN = False"
| "js_less _ NegInf = False"
| "js_less PosInf _ = False"
| "js_less NegInf _ = True"
| "js_less _ PosInf = True"

text \<open>
  What the model takes from the number type of the language: \<open>rnd\<close>, the double that
  stands for an exact result (of an operation or of a decimal literal), and
  \<open>exponential\<close>, the text the language writes for a number from \<^verbatim>\<open>1e21\<close> on.
\<close>

record doubles =
  rnd :: "real \<Rightarrow> real"
  exponential :: "real \<Rightarrow> string"

definition rounded :: "doubles \<Rightarrow> jsnum \<Rightarrow> jsnum" where
  "rounded fp a = (case a of Fin x \<Rightarrow> Fin (rnd fp x) | _ \<Rightarrow> a)"

text \<open>
  The exact result \<open>x\<close> is rounded with a relative error of \<open>u\<close> at most. For doubles
  this holds with \<open>u = 2^-53\<close> wherever the result neither underflows nor overflows.
\<close>

definition accurate :: "doubles \<Rightarrow> real \<Rightarrow> real \<Rightarrow> bool" where
  "accurate fp u x = (\<bar>rnd fp x - x\<bar> \<le> u * \<bar>x\<bar>)"

text \<open>
  A payload or an option value: \<^verbatim>\<open>undefined\<close>, \<^verbatim>\<open>null\<close>, a boolean, a number, a
  string, or an object, which is a finite map from property names to values (an array
  is an object whose names are its indices). Functions, symbols and objects with
  getters are outside the model.
\<close>

datatype jsval = JUndefined | JNull | JBool bool | JNum jsnum | JStr string
  | JObj "string \<Rightarrow> jsval option"

type_synonym jsobj = "string \<Rightarrow> jsval option"

text \<open>The \<^verbatim>\<open>typeof\<close> operator; \<^verbatim>\<open>typeof null\<close> is \<^verbatim>\<open>'object'\<close>.\<close>

fun typeof :: "jsval \<Rightarrow> string" where
  "typeof JUndefined = ''undefined''"
| "typeof JNull = ''object''"
| "typeof (JBool _) = ''boolean''"
| "typeof (JNum _) = ''number''"
| "typeof (JStr _) = ''string''"
| "typeof (JObj _) = ''object''"

text \<open>
  Truthiness, as \<^verbatim>\<open>if (v)\<close> and \<^verbatim>\<open>!v\<close> read a value: \<^verbatim>\<open>undefined\<close>, \<^verbatim>\<open>null\<close>,
  \<^verbatim>\<open>false\<close>, \<^verbatim>\<open>0\<close>, NaN and the empty string are falsy, everything else is truthy.
\<close>

fun truthy :: "jsval \<Rightarrow> bool" where
  "truthy JUndefined = False"
| "truthy JNull = False"
| "truthy (JBool b) = b"
| "truthy (JNum (Fin x)) = (x \<noteq> 0)"
| "truthy (JNum NaN) = False"
| "truthy (JNum PosInf) = True"
| "truthy (JNum NegInf) = True"
| "truthy (JStr s) = (s \<noteq> [])"
| "truthy (JObj _) = True"

text \<open>Exceptions: the language's own TypeError, and an error thrown by a library.\<close>

datatype exn = TypeError | Error string

text \<open>
  Object destructuring \<^verbatim>\<open>let { a, b } = v\<close>: it throws a TypeError when \<^verbatim>\<open>v\<close> is
  \<^verbatim>\<open>undefined\<close> or \<^verbatim>\<open>null\<close>; otherwise each name reads the property, \<^verbatim>\<open>undefined\<close>
  when the object has none of that name. The result is the property reader. A boolean,
  number or string has none of the properties this module reads.
\<close>

definition get_prop :: "(string \<Rightarrow> jsval option) \<Rightarrow> string \<Rightarrow> jsval" where
  "get_prop m k = (case m k of None \<Rightarrow> JUndefined | Some v \<Rightarrow> v)"

fun destructure :: "jsval \<Rightarrow> exn + (string \<Rightarrow> jsval)" where
  "destructure JUndefined = Inl TypeError"
| "destructure JNull = Inl TypeError"
| "destructure (JObj m) = Inr (get_prop m)"
| "destructure _ = Inr (\<lambda>k. JUndefined)"

text \<open>\<^verbatim>\<open>a ?? b\<close>: the right operand replaces \<^verbatim>\<open>undefined\<close> and \<^verbatim>\<open>null\<close> only.\<close>

fun nullish :: "jsval \<Rightarrow> jsval \<Rightarrow> jsval" where
  "nullish JUndefined b = b"
| "nullish JNull b = b"
| "nullish a b = a"

section \<open>Draw options inferred from the draw time\<close>

text \<open>
  \<^verbatim>\<open>getDrawOptions(drawTime, options = {})\<close>, lines 257 to 263. The draw time is the
  pair \<^verbatim>\<open>[lookbehind, lookahead]\<close>; the options argument is \<open>None\<close> when the caller
  leaves it out. The object literal \<^verbatim>\<open>{ fold: 1, ...options, cycles, playhead }\<close> is
  built left to right, a later property replacing an earlier one of the same name.
\<close>

definition getDrawOptions :: "jsnum \<times> jsnum \<Rightarrow> jsobj option \<Rightarrow> jsobj" where
  "getDrawOptions drawTime options =
     (let opts = (case options of None \<Rightarrow> Map.empty | Some given \<Rightarrow> given);
          (lookbehind0, lookahead) = drawTime;
          lookbehind = js_abs lookbehind0;
          cycles = js_add lookahead lookbehind;
          playhead = (if js_strict_neq cycles (Fin 0) then js_div lookbehind cycles else Fin 0)
      in ([''fold'' \<mapsto> JNum (Fin 1)] ++ opts)
           (''cycles'' \<mapsto> JNum cycles, ''playhead'' \<mapsto> JNum playhead))"

text \<open>
  Lines 258 to 262 again, with the sum and the quotient rounded to doubles
  (\<^verbatim>\<open>Math.abs\<close> is exact).
\<close>

definition getDrawOptions_rounded ::
    "doubles \<Rightarrow> jsnum \<times> jsnum \<Rightarrow> jsobj option \<Rightarrow> jsobj" where
  "getDrawOptions_rounded fp drawTime options =
     (let opts = (case options of None \<Rightarrow> Map.empty | Some given \<Rightarrow> given);
          (lookbehind0, lookahead) = drawTime;
          lookbehind = js_abs lookbehind0;
          cycles = rounded fp (js_add lookahead lookbehind);
          playhead = (if js_strict_neq cycles (Fin 0)
                      then rounded fp (js_div lookbehind cycles) else Fin 0)
      in ([''fold'' \<mapsto> JNum (Fin 1)] ++ opts)
           (''cycles'' \<mapsto> JNum cycles, ''playhead'' \<mapsto> JNum playhead))"

section \<open>The window of a canvas visualisation\<close>

text \<open>
  \<^verbatim>\<open>Pattern.prototype.canvas(options = {})\<close>, lines 74 to 96. The options read here,
  with the types the documentation comment gives them; \<open>None\<close> is a property that is
  absent or \<^verbatim>\<open>undefined\<close>, which is when a destructuring default applies. The drawing
  context and the id are handed on unchanged and are left out.
\<close>

record canvas_options =
  cycles :: "jsnum option"
  playhead :: "jsnum option"
  overscan :: "jsnum option"
  hideNegative :: "jsval option"

text \<open>
  Lines 75, 77 and 78: the pair \<^verbatim>\<open>(from, to)\<close>. In \<^verbatim>\<open>-cycles * playhead\<close> the unary
  minus binds first.
\<close>

definition canvas_window :: "canvas_options \<Rightarrow> jsnum \<times> jsnum" where
  "canvas_window options =
     (let c = (case cycles options of None \<Rightarrow> Fin 4 | Some v \<Rightarrow> v);
          p = (case playhead options of None \<Rightarrow> Fin (1 / 2) | Some v \<Rightarrow> v);
          from = js_mul (js_neg c) p;
          to = js_mul c (js_sub (Fin 1) p)
      in (from, to))"

text \<open>
  Lines 77 and 78 again, with the two products and the difference rounded to doubles
  (the unary minus is exact, and so are the literals 4, 0.5 and 1).
\<close>

definition canvas_window_rounded :: "doubles \<Rightarrow> canvas_options \<Rightarrow> jsnum \<times> jsnum" where
  "canvas_window_rounded fp options =
     (let c = (case cycles options of None \<Rightarrow> Fin 4 | Some v \<Rightarrow> v);
          p = (case playhead options of None \<Rightarrow> Fin (1 / 2) | Some v \<Rightarrow> v);
          from = rounded fp (js_mul (js_neg c) p);
          to = rounded fp (js_mul c (rounded fp (js_sub (Fin 1) p)))
      in (from, to))"

text \<open>
  Each of the five arithmetic results on the way from \<^verbatim>\<open>cycles = c\<close> and
  \<^verbatim>\<open>playhead = p\<close> to the window and back is rounded with a relative error of \<open>u\<close> at
  most: the two products and the difference of lines 77 and 78, the sum of line 260 and
  the quotient of line 261.
\<close>

definition round_trip_accurate :: "doubles \<Rightarrow> real \<Rightarrow> real \<Rightarrow> real \<Rightarrow> bool" where
  "round_trip_accurate fp u c p =
     (let from = rnd fp (- c * p);
          rest = rnd fp (1 - p);
          to = rnd fp (c * rest);
          total = rnd fp (to + \<bar>from\<bar>)
      in accurate fp u (- c * p) \<and> accurate fp u (1 - p) \<and> accurate fp u (c * rest)
         \<and> accurate fp u (to + \<bar>from\<bar>) \<and> accurate fp u (\<bar>from\<bar> / total))"

text \<open>Lines 90 and 91: the range \<^verbatim>\<open>(lookbehind, lookahead)\<close> handed to the draw loop.\<close>

definition canvas_draw_range :: "canvas_options \<Rightarrow> jsnum \<times> jsnum" where
  "canvas_draw_range options =
     (let (from, to) = canvas_window options;
          over = (case overscan options of None \<Rightarrow> Fin 0 | Some v \<Rightarrow> v)
      in (js_sub from over, js_add to over))"

text \<open>The flag \<^verbatim>\<open>hideNegative\<close> after its default \<^verbatim>\<open>false\<close>.\<close>

definition hideNegative_flag :: "canvas_options \<Rightarrow> jsval" where
  "hideNegative_flag options =
     (case hideNegative options of
        None \<Rightarrow> JBool False
      | Some JUndefined \<Rightarrow> JBool False
      | Some v \<Rightarrow> v)"

text \<open>
  An event (hap) as the spec's data model has it: the interval \<^verbatim>\<open>whole\<close> with its
  \<^verbatim>\<open>begin\<close> and \<^verbatim>\<open>end\<close> (fractions in the engine, read as the numbers they denote)
  and the payload \<^verbatim>\<open>value\<close>.
\<close>

record timespan =
  span_begin :: real
  span_end :: real

record hap =
  whole :: timespan
  hap_value :: jsval

text \<open>
  Line 79, \<^verbatim>\<open>inFrame(hap, t)\<close>. The method \<^verbatim>\<open>hap.isWithinTime\<close> belongs to the pattern
  engine and is a parameter here.
\<close>

definition inFrame ::
    "(hap \<Rightarrow> jsnum \<Rightarrow> jsnum \<Rightarrow> bool) \<Rightarrow> canvas_options \<Rightarrow> hap \<Rightarrow> jsnum \<Rightarrow> bool" where
  "inFrame isWithin options h t =
     (let (from, to) = canvas_window options
      in (\<not> truthy (hideNegative_flag options) \<or> 0 \<le> span_begin (whole h))
         \<and> isWithin h (js_add t from) (js_add t to))"

text \<open>Line 86: the events handed to the renderer at one tick.\<close>

definition canvas_haps ::
    "(hap \<Rightarrow> jsnum \<Rightarrow> jsnum \<Rightarrow> bool) \<Rightarrow> canvas_options \<Rightarrow> hap list \<Rightarrow> jsnum \<Rightarrow> hap list" where
  "canvas_haps isWithin options haps time =
     filter (\<lambda>h. inFrame isWithin options h time) haps"

text \<open>
  Modelled from the spec: the engine's \<^verbatim>\<open>Hap.isWithinTime(t0, t1)\<close> is not among the
  sources. The spec gives it as "the event overlaps the half-open time range", partial
  overlaps included: the interval \<^verbatim>\<open>[begin, end)\<close> of the event and the range
  \<^verbatim>\<open>[t0, t1)\<close> share a point.
\<close>

definition isWithinTime :: "hap \<Rightarrow> jsnum \<Rightarrow> jsnum \<Rightarrow> bool" where
  "isWithinTime h t0 t1 =
     (js_less (Fin (span_begin (whole h))) t1 \<and> js_less t0 (Fin (span_end (whole h))))"

section \<open>The value extractor\<close>

text \<open>
  What \<^verbatim>\<open>getValue\<close> takes from outside: \<^verbatim>\<open>noteToMidi\<close> and \<^verbatim>\<open>freqToMidi\<close> of the
  pattern engine, each returning a value or throwing, and the language's conversion of
  a value that is not a string to a string (used by \<^verbatim>\<open>'_' + s\<close>), which throws a
  TypeError for an object that has no primitive value.
\<close>

record externals =
  noteToMidi :: "string \<Rightarrow> exn + jsval"
  freqToMidi :: "jsval \<Rightarrow> exn + jsval"
  string_of :: "jsval \<Rightarrow> exn + string"

text \<open>\<^verbatim>\<open>'_' + s\<close>: concatenation, after the conversion of \<^verbatim>\<open>s\<close> to a string.\<close>

definition underscore_plus :: "externals \<Rightarrow> jsval \<Rightarrow> exn + jsval" where
  "underscore_plus ext s =
     (case s of
        JStr str \<Rightarrow> Inr (JStr (''_'' @ str))
      | _ \<Rightarrow> (case string_of ext s of
                Inl err \<Rightarrow> Inl err
              | Inr str \<Rightarrow> Inr (JStr (''_'' @ str))))"

text \<open>
  \<^verbatim>\<open>getValue(e)\<close>, lines 12 to 38. \<open>Inl\<close> is an exception that leaves the function,
  \<open>Inr\<close> the value returned. The tests \<^verbatim>\<open>typeof note === 'string'\<close> and
  \<^verbatim>\<open>typeof note === 'number'\<close> are the cases \<open>JStr\<close> and \<open>JNum\<close>; the
  \<^verbatim>\<open>try\<close> block turns every exception of \<^verbatim>\<open>noteToMidi\<close> into the result 0.
\<close>

definition getValue :: "externals \<Rightarrow> hap \<Rightarrow> exn + jsval" where
  "getValue ext e =
     (let value0 = hap_value e;
          val = (if typeof value0 \<noteq> ''object'' then JObj [''value'' \<mapsto> value0] else value0)
      in case destructure val of
           Inl err \<Rightarrow> Inl err
         | Inr field \<Rightarrow>
             (let note0 = field ''note''; n = field ''n''; freq = field ''freq''; s = field ''s''
              in if truthy freq then freqToMidi ext freq
                 else (case nullish note0 n of
                         JStr name \<Rightarrow>
                           (case noteToMidi ext name of
                              Inl err \<Rightarrow> Inr (JNum (Fin 0))
                            | Inr midi \<Rightarrow> Inr midi)
                       | JNum k \<Rightarrow> Inr (JNum k)
                       | _ \<Rightarrow> if truthy s then underscore_plus ext s else Inr val)))"

text \<open>
  One behaviour of the externals, for closed examples: the engine maps the name
  \<^verbatim>\<open>a4\<close> and the frequency 440 to the pitch 69, a frequency of 0 to minus infinity
  (the logarithm of 0), and throws on a name that is no note. The other answers of this
  sample are not used.
\<close>

definition sample_externals :: externals where
  "sample_externals =
     \<lparr>noteToMidi = (\<lambda>name. if name = ''a4'' then Inr (JNum (Fin 69))
                           else Inl (Error (''not a note: '' @ name))),
      freqToMidi = (\<lambda>f. case f of
                           JNum (Fin x) \<Rightarrow>
                             if x = 440 then Inr (JNum (Fin 69))
                             else if x = 0 then Inr (JNum NegInf)
                             else Inr (JNum NaN)
                         | _ \<Rightarrow> Inr (JNum NaN)),
      string_of = (\<lambda>v. Inr ''?'')\<rparr>"

section \<open>The overlay tracker\<close>

text \<open>
  A detected hand: its confidence, its handedness label and its keypoints, each a
  position in pixels. Reading \<^verbatim>\<open>keypoints[i]\<close> past the end of the array gives
  \<^verbatim>\<open>undefined\<close>, here \<open>None\<close>.
\<close>

record keypoint =
  kp_x :: real
  kp_y :: real

record hand =
  confidence :: real
  handedness :: string
  keypoints :: "keypoint list"

definition item :: "'a list \<Rightarrow> nat \<Rightarrow> 'a option" where
  "item xs i = (if i < length xs then Some (xs ! i) else None)"

text \<open>
  What the module does to the world, in the order it does it: calls on the drawing
  context, on the browser and the console, on the pose model and on the caller's gesture
  callback.
\<close>

datatype effect =
    GetUserMedia | CreateVideo | ConsoleError | ConsoleLog string | SetupHandPose
  | FillStyle string | FillRect real real real real | Font string | FillText string real real
  | DrawImage real real real real | LineWidth real | StrokeStyle string | BeginPath
  | MoveTo real real | LineTo real real | Stroke
  | Callback string hand | RequestAnimationFrame

text \<open>
  \<^verbatim>\<open>x.toFixed(1)\<close>: a negative \<open>x\<close> is written as its absolute value after a minus
  sign. Below \<^verbatim>\<open>1e21\<close> the text is the integer \<open>n\<close> for which \<open>n / 10\<close> is nearest to
  \<open>x\<close>, the larger one of two, written in decimal with a point before its last digit;
  from \<^verbatim>\<open>1e21\<close> on it is the language's exponent notation.
\<close>

definition digit :: "nat \<Rightarrow> char" where
  "digit d = ''0123456789'' ! d"

function show_nat :: "nat \<Rightarrow> string" where
  "show_nat n = (if n < 10 then [digit n] else show_nat (n div 10) @ [digit (n mod 10)])"
  by pat_completeness auto
termination
  by (relation "measure id") auto

declare show_nat.simps [simp del]

definition round_tenths :: "real \<Rightarrow> int" where
  "round_tenths x = \<lfloor>10 * x + 1 / 2\<rfloor>"

definition fixed1 :: "real \<Rightarrow> string" where
  "fixed1 x = (let n = nat (round_tenths x) in show_nat (n div 10) @ ''.'' @ [digit (n mod 10)])"

definition toFixed1 :: "doubles \<Rightarrow> real \<Rightarrow> string" where
  "toFixed1 fp x =
     (let sign = (if x < 0 then ''-'' else '''');
          y = (if x < 0 then - x else x)
      in sign @ (if 10 ^ 21 \<le> y then exponential fp y else fixed1 y))"

text \<open>
  Lines 231 to 233. \<open>fingertip_length\<close> is the number
  \<^verbatim>\<open>Math.sqrt(dx * dx + dy * dy)\<close>, every result on the way rounded to a double: the two
  differences, the two squares, their sum and the square root. \<open>fingertip_distance\<close> is
  \<^verbatim>\<open>distance\<close>, that number after \<^verbatim>\<open>toFixed(1)\<close>.
\<close>

definition fingertip_length :: "doubles \<Rightarrow> keypoint \<Rightarrow> keypoint \<Rightarrow> real" where
  "fingertip_length fp thumbTip indexTip =
     (let dx = rnd fp (kp_x indexTip - kp_x thumbTip);
          dy = rnd fp (kp_y indexTip - kp_y thumbTip)
      in rnd fp (sqrt (rnd fp (rnd fp (dx * dx) + rnd fp (dy * dy)))))"

definition fingertip_distance :: "doubles \<Rightarrow> keypoint \<Rightarrow> keypoint \<Rightarrow> string" where
  "fingertip_distance fp thumbTip indexTip = toFixed1 fp (fingertip_length fp thumbTip indexTip)"

text \<open>
  Each of the six results of \<open>fingertip_length\<close> is rounded with a relative error of
  \<open>u\<close> at most.
\<close>

definition length_accurate :: "doubles \<Rightarrow> real \<Rightarrow> keypoint \<Rightarrow> keypoint \<Rightarrow> bool" where
  "length_accurate fp u thumbTip indexTip =
     (let dx = rnd fp (kp_x indexTip - kp_x thumbTip);
          dy = rnd fp (kp_y indexTip - kp_y thumbTip);
          total = rnd fp (rnd fp (dx * dx) + rnd fp (dy * dy))
      in accurate fp u (kp_x indexTip - kp_x thumbTip)
         \<and> accurate fp u (kp_y indexTip - kp_y thumbTip)
         \<and> accurate fp u (dx * dx) \<and> accurate fp u (dy * dy)
         \<and> accurate fp u (rnd fp (dx * dx) + rnd fp (dy * dy))
         \<and> accurate fp u (sqrt total))"

text \<open>Lines 166 to 188: the edges of the hand skeleton.\<close>

definition handConnections :: "(nat \<times> nat) list" where
  "handConnections =
     [(0, 1), (1, 2), (2, 3), (3, 4),
      (5, 6), (6, 7), (7, 8),
      (9, 10), (10, 11), (11, 12),
      (13, 14), (14, 15), (15, 16),
      (17, 18), (18, 19), (19, 20),
      (0, 5), (5, 9), (9, 13), (13, 17), (17, 0)]"

text \<open>Lines 208 to 215: one edge of the skeleton, drawn when both its ends exist.\<close>

definition drawConnection :: "keypoint list \<Rightarrow> nat \<times> nat \<Rightarrow> effect list" where
  "drawConnection kps edge =
     (case (item kps (fst edge), item kps (snd edge)) of
        (Some start, Some stop) \<Rightarrow>
          [MoveTo (kp_x start) (kp_y start), LineTo (kp_x stop) (kp_y stop)]
      | _ \<Rightarrow> [])"

text \<open>
  Lines 219 to 245: the line between thumb tip and index tip, the distance label at the
  midpoint, and the call of \<^verbatim>\<open>options.callback\<close> when the caller supplied one. The
  sums, the halves and the shifts by 5 of the label's position are rounded to doubles.
\<close>

definition drawDistance :: "doubles \<Rightarrow> bool \<Rightarrow> hand \<Rightarrow> effect list" where
  "drawDistance fp callback h =
     (case (item (keypoints h) 4, item (keypoints h) 8) of
        (Some thumbTip, Some indexTip) \<Rightarrow>
          (let distance = fingertip_distance fp thumbTip indexTip;
               midX = rnd fp (rnd fp (kp_x thumbTip + kp_x indexTip) / 2);
               midY = rnd fp (rnd fp (kp_y thumbTip + kp_y indexTip) / 2)
           in [StrokeStyle ''cyan'', BeginPath,
               MoveTo (kp_x thumbTip) (kp_y thumbTip),
               LineTo (kp_x indexTip) (kp_y indexTip), Stroke,
               FillStyle ''cyan'', Font ''16px sans-serif'',
               FillText (distance @ ''px'') (rnd fp (midX + 5)) (rnd fp (midY - 5))]
              @ (if callback then [Callback distance h] else []))
      | _ \<Rightarrow> [])"

text \<open>
  Lines 196 to 246: one hand of the detection result. The threshold is the double that
  the literal \<^verbatim>\<open>0.8\<close> stands for.
\<close>

definition drawHand :: "doubles \<Rightarrow> bool \<Rightarrow> hand \<Rightarrow> effect list" where
  "drawHand fp callback h =
     (if rnd fp (8 / 10) < confidence h
      then [LineWidth 5,
            StrokeStyle (if handedness h = ''Left'' then ''rgb(255, 0, 255)''
                         else ''rgb(255, 255, 0)''),
            BeginPath]
           @ concat (map (drawConnection (keypoints h)) handConnections)
           @ [Stroke]
           @ drawDistance fp callback h
      else [])"

text \<open>
  The module's variables. The handpose model and its loading (\<^verbatim>\<open>setupHandPose\<close>) run
  as a task of their own, seen here as the effect \<open>SetupHandPose\<close> and, later, as the
  detection results that the model's callback stores.
\<close>

datatype media_stream = MediaStream

datatype video = Video media_stream

record tracker =
  webcamVideo :: "video option"
  webcamStream :: "media_stream option"
  webcamReady :: bool
  webcamDrawLoopStarted :: bool
  detectedHands :: "hand list"

definition initial :: tracker where
  "initial = \<lparr>webcamVideo = None, webcamStream = None, webcamReady = False,
              webcamDrawLoopStarted = False, detectedHands = []\<rparr>"

text \<open>
  Lines 190 to 252, \<^verbatim>\<open>drawFrame()\<close>: one frame of the redraw loop on a surface of
  width \<open>w\<close> and height \<open>h\<close>, ending with the request for the next frame.
\<close>

definition drawFrame :: "doubles \<Rightarrow> real \<Rightarrow> real \<Rightarrow> bool \<Rightarrow> tracker \<Rightarrow> effect list" where
  "drawFrame fp w h callback st =
     (if webcamReady st
      then DrawImage 0 0 w h
           # (if 0 < length (detectedHands st)
              then concat (map (drawHand fp callback) (detectedHands st))
              else [])
      else [])
     @ [RequestAnimationFrame]"

text \<open>What \<^verbatim>\<open>getUserMedia\<close> answers when it is asked.\<close>

datatype permission = Granted | Denied

text \<open>Lines 156 to 254: the draw loop is started by the first call that gets this far.\<close>

definition startDrawLoop ::
    "doubles \<Rightarrow> real \<Rightarrow> real \<Rightarrow> bool \<Rightarrow> tracker \<Rightarrow> effect list \<Rightarrow> tracker \<times> effect list" where
  "startDrawLoop fp w h callback st done =
     (if \<not> webcamDrawLoopStarted st
      then (let st' = st\<lparr>webcamDrawLoopStarted := True\<rparr>
            in (st', done
                  @ (if webcamVideo st' \<noteq> None
                     then [ConsoleLog ''Setting up handpose model...'', SetupHandPose]
                     else [])
                  @ drawFrame fp w h callback st'))
      else (st, done))"

text \<open>
  \<^verbatim>\<open>_canvas({ ctx, ...options })\<close>, lines 130 to 255, as one render request that runs to
  its end before the next one starts: the new state of the module's variables and the
  effects in order. The permission is what \<^verbatim>\<open>getUserMedia\<close> would answer at this request.
\<close>

definition underscore_canvas ::
    "doubles \<Rightarrow> permission \<Rightarrow> real \<Rightarrow> real \<Rightarrow> bool \<Rightarrow> tracker \<Rightarrow> tracker \<times> effect list" where
  "underscore_canvas fp perm w h callback st =
     (if webcamVideo st = None
      then (case perm of
              Granted \<Rightarrow>
                startDrawLoop fp w h callback
                  (st\<lparr>webcamStream := Some MediaStream, webcamVideo := Some (Video MediaStream)\<rparr>)
                  [GetUserMedia, CreateVideo]
            | Denied \<Rightarrow>
                (st, [GetUserMedia, FillStyle ''black'', FillRect 0 0 w h, FillStyle ''white'',
                      Font ''16px monospace'', FillText ''Webcam permission denied'' 10 30,
                      ConsoleError]))
      else startDrawLoop fp w h callback st [])"

text \<open>Render requests one after the other, one permission answer for each.\<close>

fun render_ticks ::
    "doubles \<Rightarrow> permission list \<Rightarrow> real \<Rightarrow> real \<Rightarrow> bool \<Rightarrow> tracker
      \<Rightarrow> tracker \<times> effect list" where
  "render_ticks fp [] w h callback st = (st, [])"
| "render_ticks fp (perm # rest) w h callback st =
     (let (st1, out1) = underscore_canvas fp perm w h callback st;
          (st2, out2) = render_ticks fp rest w h callback st1
      in (st2, out1 @ out2))"

text \<open>
  The effects that report a distance: a text drawn on the surface and a call of the
  caller's callback.
\<close>

fun is_report :: "effect \<Rightarrow> bool" where
  "is_report (FillText _ _ _) = True"
| "is_report (Callback _ _) = True"
| "is_report _ = False"

text \<open>
  Inputs for closed examples. The arithmetic \<open>sample_doubles\<close> gives what doubles give
  on the numbers the examples meet: the literal \<^verbatim>\<open>0.8\<close> stands for the double
  \<open>3602879701896397 / 2^52\<close>, and every other number met is a small binary fraction,
  which a double holds exactly and rounding leaves as it is. No number from \<^verbatim>\<open>1e21\<close>
  on is met. The detection result is one left hand, seen with confidence 0.875, all of
  its 21 keypoints at the origin but the index tip (keypoint 8) at \<open>(0.375, 0.5)\<close>;
  the state is the module's once the video is ready and this hand has been reported.
\<close>

definition sample_doubles :: doubles where
  "sample_doubles =
     \<lparr>rnd = (\<lambda>x. if x = 8 / 10 then 3602879701896397 / 4503599627370496 else x),
      exponential = (\<lambda>x. ''?'')\<rparr>"

definition sample_hand :: hand where
  "sample_hand =
     \<lparr>confidence = 7 / 8, handedness = ''Left'',
      keypoints = (replicate 21 \<lparr>kp_x = 0, kp_y = 0\<rparr>)[8 := \<lparr>kp_x = 3 / 8, kp_y = 1 / 2\<rparr>]\<rparr>"

definition sample_tracker :: tracker where
  "sample_tracker =
     \<lparr>webcamVideo = Some (Video MediaStream), webcamStream = Some MediaStream,
      webcamReady = True, webcamDrawLoopStarted = True, detectedHands = [sample_hand]\<rparr>"

section \<open>Properties of the window\<close>

text \<open>
  C1. For every \<^verbatim>\<open>cycles\<close> and \<^verbatim>\<open>playhead\<close>, the window of a canvas visualisation is
  \<^verbatim>\<open>from = -cycles * playhead\<close> and \<^verbatim>\<open>to = cycles * (1 - playhead)\<close>; on finite numbers
  these are the real numbers \<open>- x * y\<close> and \<open>x * (1 - y)\<close>. For 4 cycles and playhead
  0.5, which are also the defaults, the window is \<open>(-2, 2)\<close>.
\<close>

theorem canvas_window_formula:
  "canvas_window (options\<lparr>cycles := Some c, playhead := Some p\<rparr>)
     = (js_mul (js_neg c) p, js_mul c (js_sub (Fin 1) p))
   \<and> canvas_window (options\<lparr>cycles := Some (Fin x), playhead := Some (Fin y)\<rparr>)
     = (Fin (- x * y), Fin (x * (1 - y)))
   \<and> canvas_window (options\<lparr>cycles := Some (Fin 4), playhead := Some (Fin (1 / 2))\<rparr>)
     = (Fin (- 2), Fin 2)
   \<and> canvas_window (options\<lparr>cycles := None, playhead := None\<rparr>) = (Fin (- 2), Fin 2)"
  by (simp add: canvas_window_def Let_def js_sub_def)

text \<open>
  Rounding. A result rounded with relative error \<open>u\<close> lies between \<open>(1 - u)\<close> and
  \<open>(1 + u)\<close> times the exact result; three roundings in a row stay within \<open>4 u\<close>.
\<close>

lemma accurate_nonneg:
  assumes "accurate fp u x" and "0 \<le> x"
  shows "x * (1 - u) \<le> rnd fp x" and "rnd fp x \<le> x * (1 + u)"
  using assms by (simp_all add: accurate_def abs_le_iff algebra_simps)

lemma accurate_nonpos:
  assumes "accurate fp u (- y)" and "0 \<le> y" and "0 \<le> u" and "u \<le> 1"
  shows "y * (1 - u) \<le> \<bar>rnd fp (- y)\<bar>" and "\<bar>rnd fp (- y)\<bar> \<le> y * (1 + u)"
proof -
  have near: "\<bar>rnd fp (- y) + y\<bar> \<le> u * y"
    using assms(1,2) by (simp add: accurate_def)
  have "u * y \<le> 1 * y"
    using assms(2,4) by (intro mult_right_mono)
  then have neg: "rnd fp (- y) \<le> 0"
    using near by linarith
  show "y * (1 - u) \<le> \<bar>rnd fp (- y)\<bar>"
    using near neg by (simp add: algebra_simps)
  show "\<bar>rnd fp (- y)\<bar> \<le> y * (1 + u)"
    using near neg by (simp add: algebra_simps)
qed

lemma cube_bounds:
  fixes u :: real
  assumes "0 \<le> u" and "u \<le> 1 / 100"
  shows "(1 + u) * ((1 + u) * (1 + u)) \<le> 1 + 4 * u"
    and "1 - 3 * u \<le> (1 - u) * ((1 - u) * (1 - u))"
proof -
  have "u * u \<le> u * (1 / 100)"
    using assms by (intro mult_left_mono)
  then have sq: "u * u \<le> u / 100"
    by simp
  have sq0: "0 \<le> u * u"
    using assms by simp
  have "u * (u * u) \<le> 1 * (u * u)"
    using assms sq0 by (intro mult_right_mono) simp_all
  then have cu: "u * (u * u) \<le> u * u"
    by simp
  have cu0: "0 \<le> u * (u * u)"
    using assms sq0 by simp
  have e1: "(1 + u) * ((1 + u) * (1 + u)) = 1 + 3 * u + 3 * (u * u) + u * (u * u)"
    by (simp add: algebra_simps)
  have e2: "(1 - u) * ((1 - u) * (1 - u)) = 1 - 3 * u + 3 * (u * u) - u * (u * u)"
    by (simp add: algebra_simps)
  show "(1 + u) * ((1 + u) * (1 + u)) \<le> 1 + 4 * u"
    unfolding e1 using sq cu assms by linarith
  show "1 - 3 * u \<le> (1 - u) * ((1 - u) * (1 - u))"
    unfolding e2 using sq cu sq0 cu0 by linarith
qed


lemma round_trip_bounds:
  fixes c p u a b1 b s q :: real
  assumes c: "0 < c" and p0: "0 \<le> p" and p1: "p \<le> 1" and u0: "0 \<le> u" and u1: "u \<le> 1 / 100"
    and a_lo: "c * p * (1 - u) \<le> a" and a_hi: "a \<le> c * p * (1 + u)"
    and b1_lo: "(1 - p) * (1 - u) \<le> b1" and b1_hi: "b1 \<le> (1 - p) * (1 + u)"
    and b_lo: "c * b1 * (1 - u) \<le> b" and b_hi: "b \<le> c * b1 * (1 + u)"
    and s_lo: "(b + a) * (1 - u) \<le> s" and s_hi: "s \<le> (b + a) * (1 + u)"
    and q_lo: "a / s * (1 - u) \<le> q" and q_hi: "q \<le> a / s * (1 + u)"
  shows "0 < s" and "\<bar>s - c\<bar> \<le> 4 * u * c" and "\<bar>q - p\<bar> \<le> 8 * u * p"
proof -
  define m where "m = 1 - u"
  define M where "M = 1 + u"
  have m: "0 < m" "m \<le> 1" and M: "1 \<le> M" "0 < M"
    using u0 u1 by (simp_all add: m_def M_def)
  have mm: "m * m \<le> m" and mm0: "0 < m * m"
    using m mult_left_le_one_le [of m m] by simp_all
  have MM: "M \<le> M * M"
    using M mult_left_mono [of 1 M M] by simp
  have cp: "0 \<le> c * p"
    using c p0 by simp
  have rest: "0 \<le> 1 - p"
    using p1 by simp
  have b1_0: "0 \<le> b1"
  proof -
    have "0 \<le> (1 - p) * m"
      using rest m by simp
    then show ?thesis
      using b1_lo by (simp add: m_def)
  qed
  have b_low: "c * (1 - p) * (m * m) \<le> b"
  proof -
    have "c * ((1 - p) * m) \<le> c * b1"
      using b1_lo c by (intro mult_left_mono) (simp_all add: m_def)
    then have "c * ((1 - p) * m) * m \<le> c * b1 * m"
      using m by (intro mult_right_mono) simp_all
    also have "\<dots> \<le> b"
      using b_lo by (simp add: m_def)
    finally show ?thesis
      by (simp add: mult.assoc)
  qed
  have b_high: "b \<le> c * (1 - p) * (M * M)"
  proof -
    have "c * b1 \<le> c * ((1 - p) * M)"
      using b1_hi c by (intro mult_left_mono) (simp_all add: M_def)
    then have "c * b1 * M \<le> c * ((1 - p) * M) * M"
      using M by (intro mult_right_mono) simp_all
    then show ?thesis
      using b_hi by (simp add: M_def mult.assoc)
  qed
  have t_low: "c * (m * m) \<le> b + a"
  proof -
    have "c * p * (m * m) \<le> c * p * m"
      using cp mm by (intro mult_left_mono)
    moreover have "c * (m * m) = c * (1 - p) * (m * m) + c * p * (m * m)"
      by (simp add: algebra_simps)
    ultimately show ?thesis
      using b_low a_lo by (simp add: m_def)
  qed
  have t_high: "b + a \<le> c * (M * M)"
  proof -
    have "c * p * M \<le> c * p * (M * M)"
      using cp MM by (intro mult_left_mono)
    moreover have "c * (M * M) = c * (1 - p) * (M * M) + c * p * (M * M)"
      by (simp add: algebra_simps)
    ultimately show ?thesis
      using b_high a_hi by (simp add: M_def)
  qed
  have s_low: "c * (m * (m * m)) \<le> s"
  proof -
    have "c * (m * m) * m \<le> (b + a) * m"
      using t_low m by (intro mult_right_mono) simp_all
    then show ?thesis
      using s_lo by (simp add: m_def mult.assoc mult.left_commute)
  qed
  have s_high: "s \<le> c * (M * (M * M))"
  proof -
    have "(b + a) * M \<le> c * (M * M) * M"
      using t_high M by (intro mult_right_mono) simp_all
    then show ?thesis
      using s_hi by (simp add: M_def mult.assoc mult.left_commute)
  qed
  have cubes: "M * (M * M) \<le> 1 + 4 * u" "1 - 3 * u \<le> m * (m * m)"
    using cube_bounds [OF u0 u1] by (simp_all add: m_def M_def)
  have s_above: "s \<le> c * (1 + 4 * u)"
  proof -
    have "c * (M * (M * M)) \<le> c * (1 + 4 * u)"
      using cubes(1) c by (intro mult_left_mono) simp_all
    then show ?thesis
      using s_high by simp
  qed
  have s_below: "c * (1 - 3 * u) \<le> s"
  proof -
    have "c * (1 - 3 * u) \<le> c * (m * (m * m))"
      using cubes(2) c by (intro mult_left_mono) simp_all
    then show ?thesis
      using s_low by simp
  qed
  have third: "0 < 1 - 3 * u"
    using u1 by simp
  show s_pos: "0 < s"
  proof -
    have "0 < c * (1 - 3 * u)"
      using c third by simp
    then show ?thesis
      using s_below by simp
  qed
  have cu: "0 \<le> c * u"
    using c u0 by simp
  show "\<bar>s - c\<bar> \<le> 4 * u * c"
    using s_above s_below cu by (simp add: abs_le_iff algebra_simps)
  have "u * u \<le> u * (1 / 100)"
    using u0 u1 by (intro mult_left_mono)
  then have sq: "u * u \<le> u / 100"
    by simp
  have sq0: "0 \<le> u * u"
    using u0 by simp
  have ratio_hi: "a / s \<le> p * (1 + 6 * u)"
  proof -
    have "(1 + 6 * u) * (1 - 3 * u) = 1 + 3 * u - 18 * (u * u)"
      by (simp add: algebra_simps)
    then have "1 + u \<le> (1 + 6 * u) * (1 - 3 * u)"
      using sq sq0 u0 by linarith
    then have "c * (1 + u) \<le> c * ((1 + 6 * u) * (1 - 3 * u))"
      using c by (intro mult_left_mono) simp_all
    also have "\<dots> = (1 + 6 * u) * (c * (1 - 3 * u))"
      by simp
    also have "\<dots> \<le> (1 + 6 * u) * s"
      using s_below u0 by (intro mult_left_mono) simp_all
    finally have "p * (c * (1 + u)) \<le> p * ((1 + 6 * u) * s)"
      using p0 by (intro mult_left_mono)
    then have "a \<le> p * (1 + 6 * u) * s"
      using a_hi by (simp add: mult.assoc mult.left_commute)
    then show ?thesis
      using s_pos by (simp add: pos_divide_le_eq)
  qed
  have ratio_lo: "p * (1 - 5 * u) \<le> a / s"
  proof -
    have fifth: "0 \<le> 1 - 5 * u"
      using u1 by simp
    have "(1 - 5 * u) * (1 + 4 * u) \<le> 1 - u"
      using sq0 by (simp add: algebra_simps)
    then have "c * ((1 - 5 * u) * (1 + 4 * u)) \<le> c * (1 - u)"
      using c by (intro mult_left_mono) simp_all
    moreover have "(1 - 5 * u) * s \<le> (1 - 5 * u) * (c * (1 + 4 * u))"
      using s_above fifth by (intro mult_left_mono)
    ultimately have "(1 - 5 * u) * s \<le> c * (1 - u)"
      by (simp add: mult.assoc mult.left_commute)
    then have "p * ((1 - 5 * u) * s) \<le> p * (c * (1 - u))"
      using p0 by (intro mult_left_mono)
    then have "p * (1 - 5 * u) * s \<le> a"
      using a_lo by (simp add: mult.assoc mult.left_commute)
    then show ?thesis
      using s_pos by (simp add: pos_le_divide_eq)
  qed
  have ratio0: "0 \<le> a / s"
  proof -
    have "0 \<le> p * (1 - 5 * u)"
      using p0 u1 by simp
    then show ?thesis
      using ratio_lo by simp
  qed
  have pu: "0 \<le> p * u" and puu: "0 \<le> p * (u * u)" and puu': "p * (u * u) \<le> p * u / 100"
  proof -
    show "0 \<le> p * u" using p0 u0 by simp
    show "0 \<le> p * (u * u)" using p0 sq0 by simp
    have "p * (u * u) \<le> p * (u / 100)"
      using sq p0 by (intro mult_left_mono)
    then show "p * (u * u) \<le> p * u / 100" by simp
  qed
  have q_above: "q \<le> p * (1 + 8 * u)"
  proof -
    have "a / s * (1 + u) \<le> p * (1 + 6 * u) * (1 + u)"
      using ratio_hi u0 by (intro mult_right_mono) simp_all
    moreover have "p * (1 + 6 * u) * (1 + u) = p + 7 * (p * u) + 6 * (p * (u * u))"
      by (simp add: algebra_simps)
    ultimately show ?thesis
      using q_hi puu' pu by (simp add: algebra_simps)
  qed
  have q_below: "p * (1 - 8 * u) \<le> q"
  proof -
    have "p * (1 - 5 * u) * (1 - u) \<le> a / s * (1 - u)"
      using ratio_lo u1 by (intro mult_right_mono) simp_all
    moreover have "p * (1 - 5 * u) * (1 - u) = p - 6 * (p * u) + 5 * (p * (u * u))"
      by (simp add: algebra_simps)
    ultimately show ?thesis
      using q_lo puu pu by (simp add: algebra_simps)
  qed
  show "\<bar>q - p\<bar> \<le> 8 * u * p"
    using q_above q_below by (simp add: abs_le_iff algebra_simps)
qed


lemma rounded_window:
  "canvas_window_rounded fp (options\<lparr>cycles := Some (Fin c), playhead := Some (Fin p)\<rparr>)
     = (Fin (rnd fp (- c * p)), Fin (rnd fp (c * rnd fp (1 - p))))"
  by (simp add: canvas_window_rounded_def rounded_def js_sub_def Let_def)

lemma rounded_inference:
  "getDrawOptions_rounded fp (Fin lookbehind, Fin lookahead) given ''cycles''
     = Some (JNum (Fin (rnd fp (lookahead + \<bar>lookbehind\<bar>))))"
  "rnd fp (lookahead + \<bar>lookbehind\<bar>) \<noteq> 0 \<Longrightarrow>
   getDrawOptions_rounded fp (Fin lookbehind, Fin lookahead) given ''playhead''
     = Some (JNum (Fin (rnd fp (\<bar>lookbehind\<bar> / rnd fp (lookahead + \<bar>lookbehind\<bar>)))))"
  "rnd fp (lookahead + \<bar>lookbehind\<bar>) = 0 \<Longrightarrow>
   getDrawOptions_rounded fp (Fin lookbehind, Fin lookahead) given ''playhead''
     = Some (JNum (Fin 0))"
  by (simp_all add: getDrawOptions_rounded_def rounded_def Let_def)

text \<open>
  C2, as amended. For every \<^verbatim>\<open>cycles\<close> greater than 0 and every \<^verbatim>\<open>playhead\<close> in
  \<open>[0, 1]\<close>: when each of the five arithmetic results on the way is rounded with a
  relative error of \<open>u\<close> at most, \<open>u\<close> at most 0.01 (for doubles \<open>u = 2^-53\<close>, as long as
  no result underflows or overflows), computing the window and inferring the parameters
  back from it with \<^verbatim>\<open>getDrawOptions\<close> gives \<^verbatim>\<open>cycles\<close> again within a relative error of
  \<open>4 u\<close> and \<^verbatim>\<open>playhead\<close> again within a relative error of \<open>8 u\<close>. For 0 cycles the
  window is \<open>(0, 0)\<close> and the inferred pair is cycles 0 and playhead 0, whatever the
  playhead was (0 is a double, which rounding leaves as it is).
\<close>

theorem window_round_trip:
  "(0 < c \<longrightarrow> 0 \<le> p \<longrightarrow> p \<le> 1 \<longrightarrow> 0 \<le> u \<longrightarrow> u \<le> 1 / 100 \<longrightarrow>
    round_trip_accurate fp u c p \<longrightarrow>
      (\<exists>c' p'.
         getDrawOptions_rounded fp
           (canvas_window_rounded fp (options\<lparr>cycles := Some (Fin c), playhead := Some (Fin p)\<rparr>))
           given ''cycles'' = Some (JNum (Fin c'))
         \<and> getDrawOptions_rounded fp
           (canvas_window_rounded fp (options\<lparr>cycles := Some (Fin c), playhead := Some (Fin p)\<rparr>))
           given ''playhead'' = Some (JNum (Fin p'))
         \<and> \<bar>c' - c\<bar> \<le> 4 * u * c \<and> \<bar>p' - p\<bar> \<le> 8 * u * p))
   \<and> (rnd fp 0 = 0 \<longrightarrow>
        getDrawOptions_rounded fp
          (canvas_window_rounded fp (options\<lparr>cycles := Some (Fin 0), playhead := Some (Fin q)\<rparr>))
          given ''cycles'' = Some (JNum (Fin 0))
        \<and> getDrawOptions_rounded fp
          (canvas_window_rounded fp (options\<lparr>cycles := Some (Fin 0), playhead := Some (Fin q)\<rparr>))
          given ''playhead'' = Some (JNum (Fin 0)))"
proof (intro conjI impI)
  assume c: "0 < c" and p0: "0 \<le> p" and p1: "p \<le> 1" and u0: "0 \<le> u" and u1: "u \<le> 1 / 100"
    and acc: "round_trip_accurate fp u c p"
  define a where "a = \<bar>rnd fp (- c * p)\<bar>"
  define b1 where "b1 = rnd fp (1 - p)"
  define b where "b = rnd fp (c * b1)"
  define s where "s = rnd fp (b + a)"
  define r where "r = rnd fp (a / s)"
  have acc1: "accurate fp u (- (c * p))" and acc2: "accurate fp u (1 - p)"
    and acc3: "accurate fp u (c * b1)" and acc4: "accurate fp u (b + a)"
    and acc5: "accurate fp u (a / s)"
    using acc by (simp_all add: round_trip_accurate_def Let_def a_def b1_def b_def s_def)
  have u_le: "u \<le> 1"
    using u1 by simp
  have m0: "0 \<le> 1 - u"
    using u1 by simp
  have cp: "0 \<le> c * p"
    using c p0 by simp
  have a_lo: "c * p * (1 - u) \<le> a" and a_hi: "a \<le> c * p * (1 + u)"
    using accurate_nonpos [OF acc1 cp u0 u_le] by (simp_all add: a_def)
  have rest: "0 \<le> 1 - p"
    using p1 by simp
  have b1_lo: "(1 - p) * (1 - u) \<le> b1" and b1_hi: "b1 \<le> (1 - p) * (1 + u)"
    using accurate_nonneg [OF acc2 rest] by (simp_all add: b1_def)
  have "0 \<le> (1 - p) * (1 - u)"
    using rest m0 by (rule mult_nonneg_nonneg)
  then have b1_0: "0 \<le> b1"
    using b1_lo by simp
  have cb1: "0 \<le> c * b1"
    using c b1_0 by simp
  have b_lo: "c * b1 * (1 - u) \<le> b" and b_hi: "b \<le> c * b1 * (1 + u)"
    using accurate_nonneg [OF acc3 cb1] by (simp_all add: b_def)
  have "0 \<le> c * b1 * (1 - u)"
    using cb1 m0 by (rule mult_nonneg_nonneg)
  then have b0: "0 \<le> b"
    using b_lo by simp
  have t0: "0 \<le> b + a"
    using b0 by (simp add: a_def)
  have s_lo: "(b + a) * (1 - u) \<le> s" and s_hi: "s \<le> (b + a) * (1 + u)"
    using accurate_nonneg [OF acc4 t0] by (simp_all add: s_def)
  have "0 \<le> (b + a) * (1 - u)"
    using t0 m0 by (rule mult_nonneg_nonneg)
  then have s0: "0 \<le> s"
    using s_lo by simp
  have ratio0: "0 \<le> a / s"
    using s0 by (simp add: a_def)
  have r_lo: "a / s * (1 - u) \<le> r" and r_hi: "r \<le> a / s * (1 + u)"
    using accurate_nonneg [OF acc5 ratio0] by (simp_all add: r_def)
  note bounds = round_trip_bounds [OF c p0 p1 u0 u1 a_lo a_hi b1_lo b1_hi b_lo b_hi
      s_lo s_hi r_lo r_hi]
  have s_ne: "rnd fp (rnd fp (c * rnd fp (1 - p)) + \<bar>rnd fp (- c * p)\<bar>) \<noteq> 0"
    using bounds(1) by (simp add: s_def b_def b1_def a_def)
  have cycles': "getDrawOptions_rounded fp
           (canvas_window_rounded fp (options\<lparr>cycles := Some (Fin c), playhead := Some (Fin p)\<rparr>))
           given ''cycles'' = Some (JNum (Fin s))"
    unfolding rounded_window rounded_inference(1)
    by (simp add: s_def b_def b1_def a_def)
  have playhead': "getDrawOptions_rounded fp
           (canvas_window_rounded fp (options\<lparr>cycles := Some (Fin c), playhead := Some (Fin p)\<rparr>))
           given ''playhead'' = Some (JNum (Fin r))"
    unfolding rounded_window rounded_inference(2) [OF s_ne]
    by (simp add: r_def s_def b_def b1_def a_def)
  show "\<exists>c' p'.
         getDrawOptions_rounded fp
           (canvas_window_rounded fp (options\<lparr>cycles := Some (Fin c), playhead := Some (Fin p)\<rparr>))
           given ''cycles'' = Some (JNum (Fin c'))
         \<and> getDrawOptions_rounded fp
           (canvas_window_rounded fp (options\<lparr>cycles := Some (Fin c), playhead := Some (Fin p)\<rparr>))
           given ''playhead'' = Some (JNum (Fin p'))
         \<and> \<bar>c' - c\<bar> \<le> 4 * u * c \<and> \<bar>p' - p\<bar> \<le> 8 * u * p"
    using cycles' playhead' bounds(2,3) by blast
next
  assume zero: "rnd fp 0 = 0"
  show "getDrawOptions_rounded fp
          (canvas_window_rounded fp (options\<lparr>cycles := Some (Fin 0), playhead := Some (Fin q)\<rparr>))
          given ''cycles'' = Some (JNum (Fin 0))"
    unfolding rounded_window rounded_inference(1) by (simp add: zero)
next
  assume zero: "rnd fp 0 = 0"
  have "rnd fp (rnd fp (0 * rnd fp (1 - q)) + \<bar>rnd fp (- 0 * q)\<bar>) = 0"
    by (simp add: zero)
  then show "getDrawOptions_rounded fp
          (canvas_window_rounded fp (options\<lparr>cycles := Some (Fin 0), playhead := Some (Fin q)\<rparr>))
          given ''playhead'' = Some (JNum (Fin 0))"
    unfolding rounded_window by (rule rounded_inference(3))
qed

text \<open>
  The round trip at 4 cycles and playhead 0.25, where every result is a double and
  nothing is rounded: 4 and 0.25 again.
\<close>

theorem window_round_trip_witness:
  "getDrawOptions_rounded sample_doubles
     (canvas_window_rounded sample_doubles
        \<lparr>cycles = Some (Fin 4), playhead = Some (Fin (1 / 4)), overscan = None,
         hideNegative = None\<rparr>)
     None ''cycles'' = Some (JNum (Fin 4))
   \<and> getDrawOptions_rounded sample_doubles
     (canvas_window_rounded sample_doubles
        \<lparr>cycles = Some (Fin 4), playhead = Some (Fin (1 / 4)), overscan = None,
         hideNegative = None\<rparr>)
     None ''playhead'' = Some (JNum (Fin (1 / 4)))"
proof -
  have acc: "round_trip_accurate sample_doubles 0 4 (1 / 4)"
    by (simp add: round_trip_accurate_def accurate_def sample_doubles_def Let_def)
  have "\<exists>c' p'.
         getDrawOptions_rounded sample_doubles
           (canvas_window_rounded sample_doubles
              \<lparr>cycles = Some (Fin 4), playhead = Some (Fin (1 / 4)), overscan = None,
               hideNegative = None\<rparr>)
           None ''cycles'' = Some (JNum (Fin c'))
         \<and> getDrawOptions_rounded sample_doubles
           (canvas_window_rounded sample_doubles
              \<lparr>cycles = Some (Fin 4), playhead = Some (Fin (1 / 4)), overscan = None,
               hideNegative = None\<rparr>)
           None ''playhead'' = Some (JNum (Fin p'))
         \<and> \<bar>c' - 4\<bar> \<le> 4 * 0 * 4 \<and> \<bar>p' - 1 / 4\<bar> \<le> 8 * 0 * (1 / 4)"
    using acc window_round_trip [where c = 4 and p = "1 / 4" and u = 0 and fp = sample_doubles
        and given = None
        and options = "\<lparr>cycles = None, playhead = None, overscan = None, hideNegative = None\<rparr>"]
    by simp
  then show ?thesis
    by auto
qed

text \<open>Where nothing is rounded, the rounded computations are the exact ones.\<close>

lemma rounded_identity:
  assumes "rnd fp = (\<lambda>x. x)"
  shows "canvas_window_rounded fp options = canvas_window options"
    and "getDrawOptions_rounded fp drawTime given = getDrawOptions drawTime given"
proof -
  have same: "rounded fp v = v" for v
    using assms by (cases v) (simp_all add: rounded_def)
  show "canvas_window_rounded fp options = canvas_window options"
    by (simp add: canvas_window_rounded_def canvas_window_def same)
  show "getDrawOptions_rounded fp drawTime given = getDrawOptions drawTime given"
    by (simp add: getDrawOptions_rounded_def getDrawOptions_def same Let_def split: prod.split)
qed


text \<open>
  C2 as stated fails at 0 cycles: with playhead 0.5 the window is \<open>(0, 0)\<close>, and the
  playhead inferred from it is 0, not 0.5. Every number on the way is a double, so
  nothing is rounded here.
\<close>

theorem window_round_trip_counterexample:
  "getDrawOptions
     (canvas_window \<lparr>cycles = Some (Fin 0), playhead = Some (Fin (1 / 2)), overscan = None,
                     hideNegative = None\<rparr>)
     None ''playhead'' = Some (JNum (Fin 0))
   \<and> getDrawOptions
     (canvas_window \<lparr>cycles = Some (Fin 0), playhead = Some (Fin (1 / 2)), overscan = None,
                     hideNegative = None\<rparr>)
     None ''playhead'' \<noteq> Some (JNum (Fin (1 / 2)))"
  by (simp add: canvas_window_def Let_def js_sub_def getDrawOptions_def)

section \<open>Properties of the frame filter\<close>

text \<open>
  C3. An event is in the frame exactly when (\<^verbatim>\<open>hideNegative\<close> is falsy or the event
  begins at a time \<open>\<ge> 0\<close>) and the engine's \<^verbatim>\<open>isWithinTime\<close> accepts it for the range
  from \<^verbatim>\<open>t + from\<close> to \<^verbatim>\<open>t + to\<close>; the events handed to the renderer are those of the
  candidates that are in the frame. So for an event that begins at a time \<open>\<ge> 0\<close> the
  value of \<^verbatim>\<open>hideNegative\<close> makes no difference. With the window \<open>(-2, 2)\<close> at time 0,
  the event \<open>[-1, 1)\<close> is left out when \<^verbatim>\<open>hideNegative\<close> is true and kept when it is
  false (\<^verbatim>\<open>isWithinTime\<close> being the overlap of the spec).
\<close>

theorem inFrame_rule:
  "inFrame isWithin options h t
     = ((\<not> truthy (hideNegative_flag options) \<or> 0 \<le> span_begin (whole h))
        \<and> isWithin h (js_add t (fst (canvas_window options)))
                      (js_add t (snd (canvas_window options))))
   \<and> set (canvas_haps isWithin options haps t)
     = {e \<in> set haps. inFrame isWithin options e t}
   \<and> (0 \<le> span_begin (whole h) \<longrightarrow>
        inFrame isWithin (options\<lparr>hideNegative := flag\<rparr>) h t
          = inFrame isWithin (options\<lparr>hideNegative := flag'\<rparr>) h t)
   \<and> \<not> inFrame isWithinTime
          \<lparr>cycles = Some (Fin 4), playhead = Some (Fin (1 / 2)), overscan = None,
           hideNegative = Some (JBool True)\<rparr>
          \<lparr>whole = \<lparr>span_begin = - 1, span_end = 1\<rparr>, hap_value = v\<rparr> (Fin 0)
   \<and> inFrame isWithinTime
          \<lparr>cycles = Some (Fin 4), playhead = Some (Fin (1 / 2)), overscan = None,
           hideNegative = Some (JBool False)\<rparr>
          \<lparr>whole = \<lparr>span_begin = - 1, span_end = 1\<rparr>, hap_value = v\<rparr> (Fin 0)"
  by (simp add: inFrame_def canvas_haps_def canvas_window_def hideNegative_flag_def
      isWithinTime_def js_sub_def Let_def split: prod.split)

text \<open>
  The event \<open>[1/2, 1)\<close> under the default window at time 0: in the frame with
  \<^verbatim>\<open>hideNegative\<close> true as with \<^verbatim>\<open>hideNegative\<close> false.
\<close>

theorem inFrame_rule_witness:
  "inFrame isWithinTime
     \<lparr>cycles = None, playhead = None, overscan = None, hideNegative = Some (JBool True)\<rparr>
     \<lparr>whole = \<lparr>span_begin = 1 / 2, span_end = 1\<rparr>, hap_value = JNull\<rparr> (Fin 0)
   = inFrame isWithinTime
     \<lparr>cycles = None, playhead = None, overscan = None, hideNegative = Some (JBool False)\<rparr>
     \<lparr>whole = \<lparr>span_begin = 1 / 2, span_end = 1\<rparr>, hap_value = JNull\<rparr> (Fin 0)
   \<and> inFrame isWithinTime
     \<lparr>cycles = None, playhead = None, overscan = None, hideNegative = Some (JBool True)\<rparr>
     \<lparr>whole = \<lparr>span_begin = 1 / 2, span_end = 1\<rparr>, hap_value = JNull\<rparr> (Fin 0)"
  using inFrame_rule [where isWithin = isWithinTime and t = "Fin 0"
      and flag = "Some (JBool True)" and flag' = "Some (JBool False)" and haps = "[]"
      and h = "\<lparr>whole = \<lparr>span_begin = 1 / 2, span_end = 1\<rparr>, hap_value = JNull\<rparr>"
      and options = "\<lparr>cycles = None, playhead = None, overscan = None, hideNegative = None\<rparr>"]
  by (simp add: inFrame_def canvas_window_def hideNegative_flag_def isWithinTime_def
      js_sub_def Let_def)

section \<open>Properties of the inferred draw options\<close>

text \<open>
  C7. Inferring the parameters from lookbehind 0 and lookahead 0 gives playhead 0 (and
  cycles 0): the division is guarded by \<^verbatim>\<open>cycles !== 0\<close>. More generally, whatever finite
  draw time is given, the playhead is a finite number, never the NaN or the infinity that
  a division by zero produces.
\<close>

theorem getDrawOptions_zero_window:
  "getDrawOptions (Fin 0, Fin 0) options ''playhead'' = Some (JNum (Fin 0))
   \<and> getDrawOptions (Fin 0, Fin 0) options ''cycles'' = Some (JNum (Fin 0))
   \<and> (\<exists>r. getDrawOptions (Fin lookbehind, Fin lookahead) options ''playhead''
            = Some (JNum (Fin r)))"
  by (simp add: getDrawOptions_def Let_def)

text \<open>
  C10. Whatever options the caller gives, the options produced from a draw time carry
  \<^verbatim>\<open>cycles = lookahead + |lookbehind|\<close> and the playhead derived from the draw time:
  a \<^verbatim>\<open>cycles\<close> or \<^verbatim>\<open>playhead\<close> of the caller's has no influence on the result.
  \<^verbatim>\<open>fold\<close> is the caller's when the caller gives one and 1 otherwise.
\<close>

theorem getDrawOptions_overrides:
  "getDrawOptions (lookbehind, lookahead) (Some opts) ''cycles''
     = Some (JNum (js_add lookahead (js_abs lookbehind)))
   \<and> getDrawOptions (lookbehind, lookahead) (Some opts) ''playhead''
     = Some (JNum (if js_strict_neq (js_add lookahead (js_abs lookbehind)) (Fin 0)
                   then js_div (js_abs lookbehind) (js_add lookahead (js_abs lookbehind))
                   else Fin 0))
   \<and> getDrawOptions (lookbehind, lookahead) (Some (opts(''cycles'' \<mapsto> a, ''playhead'' \<mapsto> b)))
     = getDrawOptions (lookbehind, lookahead) (Some opts)
   \<and> getDrawOptions (lookbehind, lookahead) None ''cycles''
     = getDrawOptions (lookbehind, lookahead) (Some opts) ''cycles''
   \<and> getDrawOptions (lookbehind, lookahead) None ''playhead''
     = getDrawOptions (lookbehind, lookahead) (Some opts) ''playhead''
   \<and> getDrawOptions (lookbehind, lookahead) (Some opts) ''fold''
     = (case opts ''fold'' of None \<Rightarrow> Some (JNum (Fin 1)) | Some given \<Rightarrow> Some given)
   \<and> getDrawOptions (lookbehind, lookahead) None ''fold'' = Some (JNum (Fin 1))"
proof -
  have same: "getDrawOptions (lookbehind, lookahead) (Some (opts(''cycles'' \<mapsto> a, ''playhead'' \<mapsto> b)))
                = getDrawOptions (lookbehind, lookahead) (Some opts)"
    by (rule ext) (simp add: getDrawOptions_def Let_def map_add_def)
  show ?thesis
    unfolding same
    by (simp add: getDrawOptions_def Let_def map_add_def split: option.split)
qed

text \<open>Every other property of the caller's options is handed on as it is.\<close>

lemma getDrawOptions_other_keys:
  "k \<noteq> ''cycles'' \<Longrightarrow> k \<noteq> ''playhead'' \<Longrightarrow> k \<noteq> ''fold'' \<Longrightarrow>
   getDrawOptions drawTime (Some opts) k = opts k"
  by (simp add: getDrawOptions_def Let_def map_add_def split: option.split prod.split)

section \<open>Properties of the value extractor\<close>

text \<open>
  C4. The claim is that \<^verbatim>\<open>getValue\<close> returns a value for every payload, \<^verbatim>\<open>null\<close>
  included. For the payload \<^verbatim>\<open>null\<close> it does not: \<^verbatim>\<open>typeof null\<close> is \<^verbatim>\<open>'object'\<close>, so
  the payload is not wrapped, and destructuring it throws a TypeError.
\<close>

theorem getValue_null_payload:
  "getValue ext (e\<lparr>hap_value := JNull\<rparr>) = Inl TypeError"
  by (simp add: getValue_def)

text \<open>
  For every other payload \<^verbatim>\<open>getValue\<close> returns a value, provided neither
  \<^verbatim>\<open>freqToMidi\<close> nor the conversion of \<^verbatim>\<open>s\<close> to a string throws.
\<close>

lemma getValue_returns:
  assumes "hap_value e \<noteq> JNull" and "\<forall>f. \<exists>v. freqToMidi ext f = Inr v"
    and "\<forall>s. \<exists>str. string_of ext s = Inr str"
  shows "\<exists>v. getValue ext e = Inr v"
proof -
  obtain field where d: "destructure (if typeof (hap_value e) \<noteq> ''object''
      then JObj [''value'' \<mapsto> hap_value e] else hap_value e) = Inr field"
    using assms(1) by (cases "hap_value e") simp_all
  have plus: "\<exists>v. underscore_plus ext s = Inr v" for s
    using assms(3) [rule_format, of s]
    by (auto simp add: underscore_plus_def split: jsval.split)
  show ?thesis
    using assms(2) d plus
    by (auto simp add: getValue_def Let_def split: sum.split jsval.split)
qed

text \<open>
  C5, as amended. For every payload whose \<^verbatim>\<open>freq\<close> is truthy (present and none of
  \<^verbatim>\<open>0\<close>, NaN, the empty string, \<^verbatim>\<open>null\<close>, \<^verbatim>\<open>false\<close>, \<^verbatim>\<open>undefined\<close>), \<^verbatim>\<open>getValue\<close>
  gives what \<^verbatim>\<open>freqToMidi\<close> gives for that frequency, whatever \<^verbatim>\<open>note\<close>, \<^verbatim>\<open>n\<close> and
  \<^verbatim>\<open>s\<close> are.
\<close>

theorem getValue_freq_first:
  assumes "hap_value e = JObj m" and "truthy (get_prop m ''freq'')"
  shows "getValue ext e = freqToMidi ext (get_prop m ''freq'')"
  using assms by (simp add: getValue_def Let_def)

text \<open>The payload \<^verbatim>\<open>{ freq: 440, note: 'zz', s: 'bd' }\<close> gives the pitch of 440 Hz.\<close>

theorem getValue_freq_first_witness:
  "getValue sample_externals
     \<lparr>whole = \<lparr>span_begin = 0, span_end = 1\<rparr>,
      hap_value = JObj [''freq'' \<mapsto> JNum (Fin 440), ''note'' \<mapsto> JStr ''zz'',
                        ''s'' \<mapsto> JStr ''bd'']\<rparr>
     = Inr (JNum (Fin 69))"
  using getValue_freq_first [where ext = sample_externals
      and m = "[''freq'' \<mapsto> JNum (Fin 440), ''note'' \<mapsto> JStr ''zz'', ''s'' \<mapsto> JStr ''bd'']"
      and e = "\<lparr>whole = \<lparr>span_begin = 0, span_end = 1\<rparr>,
                hap_value = JObj [''freq'' \<mapsto> JNum (Fin 440), ''note'' \<mapsto> JStr ''zz'',
                                  ''s'' \<mapsto> JStr ''bd'']\<rparr>"]
  by (simp add: get_prop_def sample_externals_def)

text \<open>
  C5 as stated fails for a frequency that is present and falsy: the payload
  \<^verbatim>\<open>{ freq: 0, note: 60 }\<close> gives the note 60, not the conversion of the frequency 0.
\<close>

theorem getValue_freq_first_counterexample:
  "getValue sample_externals
     \<lparr>whole = \<lparr>span_begin = 0, span_end = 1\<rparr>,
      hap_value = JObj [''freq'' \<mapsto> JNum (Fin 0), ''note'' \<mapsto> JNum (Fin 60)]\<rparr>
     = Inr (JNum (Fin 60))
   \<and> getValue sample_externals
     \<lparr>whole = \<lparr>span_begin = 0, span_end = 1\<rparr>,
      hap_value = JObj [''freq'' \<mapsto> JNum (Fin 0), ''note'' \<mapsto> JNum (Fin 60)]\<rparr>
     \<noteq> freqToMidi sample_externals (JNum (Fin 0))"
  by (simp add: getValue_def Let_def get_prop_def sample_externals_def)

text \<open>
  C6. The note rule stands under the frequency rule's "else": for every payload with no
  truthy \<^verbatim>\<open>freq\<close> whose \<^verbatim>\<open>note\<close> (or, when \<^verbatim>\<open>note\<close> is \<^verbatim>\<open>undefined\<close> or \<^verbatim>\<open>null\<close>,
  whose \<^verbatim>\<open>n\<close>) is a string on which \<^verbatim>\<open>noteToMidi\<close> throws, \<^verbatim>\<open>getValue\<close> returns 0 and
  the exception does not leave it. So does the payload \<^verbatim>\<open>{ note: 'not-a-note' }\<close> when
  \<^verbatim>\<open>noteToMidi\<close> throws on that name.
\<close>

theorem getValue_invalid_note:
  "(hap_value e = JObj m \<longrightarrow> \<not> truthy (get_prop m ''freq'') \<longrightarrow>
      nullish (get_prop m ''note'') (get_prop m ''n'') = JStr name \<longrightarrow>
      noteToMidi ext name = Inl err \<longrightarrow>
      getValue ext e = Inr (JNum (Fin 0)))
   \<and> (noteToMidi ext ''not-a-note'' = Inl err \<longrightarrow>
      getValue ext \<lparr>whole = w, hap_value = JObj [''note'' \<mapsto> JStr ''not-a-note'']\<rparr>
        = Inr (JNum (Fin 0)))"
  by (simp add: getValue_def Let_def get_prop_def)

text \<open>The payloads \<^verbatim>\<open>{ n: 'zz' }\<close> and \<^verbatim>\<open>{ note: 'not-a-note' }\<close> both give 0.\<close>

theorem getValue_invalid_note_witness:
  "getValue sample_externals
     \<lparr>whole = \<lparr>span_begin = 0, span_end = 1\<rparr>, hap_value = JObj [''n'' \<mapsto> JStr ''zz'']\<rparr>
     = Inr (JNum (Fin 0))
   \<and> getValue sample_externals
     \<lparr>whole = \<lparr>span_begin = 0, span_end = 1\<rparr>,
      hap_value = JObj [''note'' \<mapsto> JStr ''not-a-note'']\<rparr>
     = Inr (JNum (Fin 0))"
  using
    getValue_invalid_note [where ext = sample_externals and m = "[''n'' \<mapsto> JStr ''zz'']"
      and name = "''zz''" and err = "Error ''not a note: zz''"
      and e = "\<lparr>whole = \<lparr>span_begin = 0, span_end = 1\<rparr>,
                hap_value = JObj [''n'' \<mapsto> JStr ''zz'']\<rparr>"]
    getValue_invalid_note [where ext = sample_externals
      and err = "Error ''not a note: not-a-note''"
      and w = "\<lparr>span_begin = 0, span_end = 1\<rparr>"]
  by (simp add: get_prop_def sample_externals_def)

section \<open>Properties of the overlay tracker\<close>

text \<open>A denied request leaves the module's variables as they were.\<close>

lemma denied_tick:
  "webcamVideo st = None \<Longrightarrow>
   underscore_canvas fp Denied w h callback st =
     (st, [GetUserMedia, FillStyle ''black'', FillRect 0 0 w h, FillStyle ''white'',
           Font ''16px monospace'', FillText ''Webcam permission denied'' 10 30, ConsoleError])"
  by (simp add: underscore_canvas_def)

lemma denied_ticks:
  "webcamVideo st = None \<Longrightarrow>
   fst (render_ticks fp (replicate n Denied) w h callback st) = st
   \<and> count_list (snd (render_ticks fp (replicate n Denied) w h callback st)) GetUserMedia = n
   \<and> count_list (snd (render_ticks fp (replicate n Denied) w h callback st))
        (FillText ''Webcam permission denied'' 10 30) = n"
  by (induction n) (auto simp add: denied_tick split: prod.splits)

text \<open>
  C8. The claim is that after a denial at the first render request the fallback frame
  is drawn once and the camera is never asked for again. The code asks again: the
  denial leaves \<^verbatim>\<open>webcamVideo\<close> at \<^verbatim>\<open>null\<close>, so the next request calls
  \<^verbatim>\<open>getUserMedia\<close> once more and, denied again, draws the fallback frame once more. Two
  denied requests give two calls and two fallback frames, and \<open>n\<close> denied requests give
  \<open>n\<close> of each; and whatever the answer at the second request, the call is made.
\<close>

theorem camera_denied_asks_again:
  "render_ticks fp [Denied, Denied] w h callback initial =
     (initial,
      [GetUserMedia, FillStyle ''black'', FillRect 0 0 w h, FillStyle ''white'',
       Font ''16px monospace'', FillText ''Webcam permission denied'' 10 30, ConsoleError,
       GetUserMedia, FillStyle ''black'', FillRect 0 0 w h, FillStyle ''white'',
       Font ''16px monospace'', FillText ''Webcam permission denied'' 10 30, ConsoleError])
   \<and> count_list (snd (render_ticks fp (replicate n Denied) w h callback initial)) GetUserMedia
       = n
   \<and> count_list (snd (render_ticks fp (replicate n Denied) w h callback initial))
        (FillText ''Webcam permission denied'' 10 30) = n
   \<and> GetUserMedia
        \<in> set (snd (underscore_canvas fp perm w h callback
                        (fst (underscore_canvas fp Denied w h callback initial))))"
proof -
  have none: "webcamVideo initial = None"
    by (simp add: initial_def)
  have again: "GetUserMedia
        \<in> set (snd (underscore_canvas fp perm w h callback
                        (fst (underscore_canvas fp Denied w h callback initial))))"
    by (cases perm) (simp_all add: denied_tick none underscore_canvas_def startDrawLoop_def Let_def)
  have two: "render_ticks fp [Denied, Denied] w h callback initial =
     (initial,
      [GetUserMedia, FillStyle ''black'', FillRect 0 0 w h, FillStyle ''white'',
       Font ''16px monospace'', FillText ''Webcam permission denied'' 10 30, ConsoleError,
       GetUserMedia, FillStyle ''black'', FillRect 0 0 w h, FillStyle ''white'',
       Font ''16px monospace'', FillText ''Webcam permission denied'' 10 30, ConsoleError])"
    by (simp add: denied_tick none)
  show ?thesis
    using two again denied_ticks [OF none, of fp n w h callback] by simp
qed

text \<open>Rounding to tenths, and the decimal digits of small numbers.\<close>

lemma show_nat_digit: "n < 10 \<Longrightarrow> show_nat n = [digit n]"
  by (subst show_nat.simps) simp

lemma round_tenths_near: "\<bar>real_of_int (round_tenths x) / 10 - x\<bar> \<le> 1 / 20"
proof -
  define n where "n = \<lfloor>10 * x + 1 / 2\<rfloor>"
  have lower: "real_of_int n \<le> 10 * x + 1 / 2"
    unfolding n_def by (rule of_int_floor_le)
  have upper: "10 * x + 1 / 2 < real_of_int n + 1"
    unfolding n_def by (rule real_of_int_floor_add_one_gt)
  have "\<bar>real_of_int n / 10 - x\<bar> \<le> 1 / 20"
    using lower upper by linarith
  then show ?thesis
    by (simp add: round_tenths_def n_def)
qed

lemma toFixed1_digits:
  "0 \<le> x \<Longrightarrow> x < 10 ^ 21 \<Longrightarrow>
   toFixed1 fp x = show_nat (nat (round_tenths x) div 10) @ ''.''
                     @ [digit (nat (round_tenths x) mod 10)]"
  by (simp add: toFixed1_def fixed1_def Let_def)

lemma item_Some: "item xs i = Some x \<longleftrightarrow> i < length xs \<and> xs ! i = x"
  by (auto simp add: item_def)

lemma connection_reports: "filter is_report (drawConnection kps edge) = []"
  by (simp add: drawConnection_def split: option.split)

lemma connections_reports:
  "filter is_report (concat (map (drawConnection kps) edges)) = []"
  by (induction edges) (simp_all add: connection_reports)

lemma drawHand_reports:
  assumes "rnd fp (8 / 10) < confidence hnd"
    and "item (keypoints hnd) 4 = Some thumbTip" and "item (keypoints hnd) 8 = Some indexTip"
  shows "filter is_report (drawHand fp callback hnd)
     = FillText (fingertip_distance fp thumbTip indexTip @ ''px'')
         (rnd fp (rnd fp (rnd fp (kp_x thumbTip + kp_x indexTip) / 2) + 5))
         (rnd fp (rnd fp (rnd fp (kp_y thumbTip + kp_y indexTip) / 2) - 5))
       # (if callback then [Callback (fingertip_distance fp thumbTip indexTip) hnd] else [])"
  using assms by (simp add: drawHand_def drawDistance_def connections_reports Let_def)

lemma drawFrame_reports:
  assumes "webcamReady st"
  shows "filter is_report (drawFrame fp w h callback st)
     = concat (map (\<lambda>x. filter is_report (drawHand fp callback x)) (detectedHands st))"
proof -
  have "(if 0 < length (detectedHands st)
         then concat (map (drawHand fp callback) (detectedHands st)) else [])
        = concat (map (drawHand fp callback) (detectedHands st))"
    by simp
  then show ?thesis
    using assms by (simp add: drawFrame_def filter_concat comp_def)
qed

lemma square_bounds:
  fixes x y u :: real
  assumes "\<bar>y - x\<bar> \<le> u * \<bar>x\<bar>" and "0 \<le> u" and "u \<le> 1"
  shows "x * x * ((1 - u) * (1 - u)) \<le> y * y" and "y * y \<le> x * x * ((1 + u) * (1 + u))"
proof -
  have hi: "\<bar>y\<bar> \<le> \<bar>x\<bar> * (1 + u)" and lo: "\<bar>x\<bar> * (1 - u) \<le> \<bar>y\<bar>"
    using assms(1) by (simp_all add: algebra_simps)
  have lo0: "0 \<le> \<bar>x\<bar> * (1 - u)"
    using assms(3) by simp
  have "\<bar>x\<bar> * (1 - u) * (\<bar>x\<bar> * (1 - u)) \<le> \<bar>y\<bar> * \<bar>y\<bar>"
    using lo lo0 by (intro mult_mono) simp_all
  then show "x * x * ((1 - u) * (1 - u)) \<le> y * y"
    by (simp add: mult.assoc mult.left_commute)
  have "\<bar>y\<bar> * \<bar>y\<bar> \<le> \<bar>x\<bar> * (1 + u) * (\<bar>x\<bar> * (1 + u))"
    using hi assms(2) by (intro mult_mono) simp_all
  then show "y * y \<le> x * x * ((1 + u) * (1 + u))"
    by (simp add: mult.assoc mult.left_commute)
qed


lemma length_bounds:
  fixes x y u dx dy sx sy t d :: real
  assumes u0: "0 \<le> u" and u1: "u \<le> 1 / 100"
    and dx: "\<bar>dx - x\<bar> \<le> u * \<bar>x\<bar>" and dy: "\<bar>dy - y\<bar> \<le> u * \<bar>y\<bar>"
    and sx_lo: "dx * dx * (1 - u) \<le> sx" and sx_hi: "sx \<le> dx * dx * (1 + u)"
    and sy_lo: "dy * dy * (1 - u) \<le> sy" and sy_hi: "sy \<le> dy * dy * (1 + u)"
    and t_lo: "(sx + sy) * (1 - u) \<le> t" and t_hi: "t \<le> (sx + sy) * (1 + u)"
    and d_lo: "sqrt t * (1 - u) \<le> d" and d_hi: "d \<le> sqrt t * (1 + u)"
  shows "\<bar>d - sqrt (x * x + y * y)\<bar> \<le> 4 * u * sqrt (x * x + y * y)"
proof -
  define m where "m = 1 - u"
  define M where "M = 1 + u"
  define E where "E = x * x + y * y"
  have m: "0 < m" "m \<le> 1" and M: "1 \<le> M" "0 < M"
    using u0 u1 by (simp_all add: m_def M_def)
  have u_le: "u \<le> 1"
    using u1 by simp
  have E0: "0 \<le> E"
    by (simp add: E_def)
  have x2: "x * x * (m * m) \<le> dx * dx" "dx * dx \<le> x * x * (M * M)"
    using square_bounds [OF dx u0 u_le] by (simp_all add: m_def M_def)
  have y2: "y * y * (m * m) \<le> dy * dy" "dy * dy \<le> y * y * (M * M)"
    using square_bounds [OF dy u0 u_le] by (simp_all add: m_def M_def)
  have sx_low: "x * x * (m * m) * m \<le> sx"
  proof -
    have "x * x * (m * m) * m \<le> dx * dx * m"
      using x2(1) m by (intro mult_right_mono) simp_all
    then show ?thesis
      using sx_lo by (simp add: m_def)
  qed
  have sx_high: "sx \<le> x * x * (M * M) * M"
  proof -
    have "dx * dx * M \<le> x * x * (M * M) * M"
      using x2(2) M by (intro mult_right_mono) simp_all
    then show ?thesis
      using sx_hi by (simp add: M_def)
  qed
  have sy_low: "y * y * (m * m) * m \<le> sy"
  proof -
    have "y * y * (m * m) * m \<le> dy * dy * m"
      using y2(1) m by (intro mult_right_mono) simp_all
    then show ?thesis
      using sy_lo by (simp add: m_def)
  qed
  have sy_high: "sy \<le> y * y * (M * M) * M"
  proof -
    have "dy * dy * M \<le> y * y * (M * M) * M"
      using y2(2) M by (intro mult_right_mono) simp_all
    then show ?thesis
      using sy_hi by (simp add: M_def)
  qed
  have sum_low: "E * ((m * m) * m) \<le> sx + sy"
    using sx_low sy_low by (simp add: E_def algebra_simps)
  have sum_high: "sx + sy \<le> E * ((M * M) * M)"
    using sx_high sy_high by (simp add: E_def algebra_simps)
  have t_low: "E * ((m * m) * (m * m)) \<le> t"
  proof -
    have "E * ((m * m) * m) * m \<le> (sx + sy) * m"
      using sum_low m by (intro mult_right_mono) simp_all
    then show ?thesis
      using t_lo by (simp add: m_def mult.assoc)
  qed
  have t_high: "t \<le> E * ((M * M) * (M * M))"
  proof -
    have "(sx + sy) * M \<le> E * ((M * M) * M) * M"
      using sum_high M by (intro mult_right_mono) simp_all
    then show ?thesis
      using t_hi by (simp add: M_def mult.assoc)
  qed
  have root_low: "sqrt E * (m * m) \<le> sqrt t"
  proof -
    have "sqrt (E * ((m * m) * (m * m))) \<le> sqrt t"
      using t_low by simp
    moreover have "sqrt (E * ((m * m) * (m * m))) = sqrt E * (m * m)"
      using m by (simp add: real_sqrt_mult)
    ultimately show ?thesis
      by simp
  qed
  have root_high: "sqrt t \<le> sqrt E * (M * M)"
  proof -
    have "sqrt t \<le> sqrt (E * ((M * M) * (M * M)))"
      using t_high by simp
    moreover have "sqrt (E * ((M * M) * (M * M))) = sqrt E * (M * M)"
      using M by (simp add: real_sqrt_mult)
    ultimately show ?thesis
      by simp
  qed
  have D0: "0 \<le> sqrt E"
    using E0 by simp
  have cubes: "M * (M * M) \<le> 1 + 4 * u" "1 - 3 * u \<le> m * (m * m)"
    using cube_bounds [OF u0 u1] by (simp_all add: m_def M_def)
  have d_above: "d \<le> sqrt E * (1 + 4 * u)"
  proof -
    have "sqrt t * M \<le> sqrt E * (M * M) * M"
      using root_high M by (intro mult_right_mono) simp_all
    also have "\<dots> = sqrt E * (M * (M * M))"
      by simp
    also have "\<dots> \<le> sqrt E * (1 + 4 * u)"
      using cubes(1) D0 by (intro mult_left_mono)
    finally show ?thesis
      using d_hi by (simp add: M_def)
  qed
  have d_below: "sqrt E * (1 - 3 * u) \<le> d"
  proof -
    have "sqrt E * (1 - 3 * u) \<le> sqrt E * (m * (m * m))"
      using cubes(2) D0 by (intro mult_left_mono)
    also have "\<dots> = sqrt E * (m * m) * m"
      by simp
    also have "\<dots> \<le> sqrt t * m"
      using root_low m by (intro mult_right_mono) simp_all
    finally show ?thesis
      using d_lo by (simp add: m_def)
  qed
  have "0 \<le> sqrt E * u"
    using D0 u0 by simp
  then have "\<bar>d - sqrt E\<bar> \<le> 4 * u * sqrt E"
    using d_above d_below by (simp add: abs_le_iff algebra_simps)
  then show ?thesis
    by (simp add: E_def)
qed

lemma fingertip_length_near:
  assumes u0: "0 \<le> u" and u1: "u \<le> 1 / 100"
    and acc: "length_accurate fp u thumbTip indexTip"
  shows "\<bar>fingertip_length fp thumbTip indexTip
           - sqrt ((kp_x indexTip - kp_x thumbTip)\<^sup>2 + (kp_y indexTip - kp_y thumbTip)\<^sup>2)\<bar>
         \<le> 4 * u * sqrt ((kp_x indexTip - kp_x thumbTip)\<^sup>2 + (kp_y indexTip - kp_y thumbTip)\<^sup>2)"
proof -
  define x where "x = kp_x indexTip - kp_x thumbTip"
  define y where "y = kp_y indexTip - kp_y thumbTip"
  define dx where "dx = rnd fp x"
  define dy where "dy = rnd fp y"
  define sx where "sx = rnd fp (dx * dx)"
  define sy where "sy = rnd fp (dy * dy)"
  define t where "t = rnd fp (sx + sy)"
  define d where "d = rnd fp (sqrt t)"
  have a1: "accurate fp u x" and a2: "accurate fp u y" and a3: "accurate fp u (dx * dx)"
    and a4: "accurate fp u (dy * dy)" and a5: "accurate fp u (sx + sy)"
    and a6: "accurate fp u (sqrt t)"
    using acc
    by (simp_all add: length_accurate_def Let_def x_def y_def dx_def dy_def sx_def sy_def t_def)
  have m0: "0 \<le> 1 - u"
    using u1 by simp
  have dx: "\<bar>dx - x\<bar> \<le> u * \<bar>x\<bar>" and dy: "\<bar>dy - y\<bar> \<le> u * \<bar>y\<bar>"
    using a1 a2 by (simp_all add: accurate_def dx_def dy_def)
  have sx_b: "dx * dx * (1 - u) \<le> sx" "sx \<le> dx * dx * (1 + u)"
    using accurate_nonneg [OF a3] by (simp_all add: sx_def)
  have sy_b: "dy * dy * (1 - u) \<le> sy" "sy \<le> dy * dy * (1 + u)"
    using accurate_nonneg [OF a4] by (simp_all add: sy_def)
  have "0 \<le> dx * dx * (1 - u)" and "0 \<le> dy * dy * (1 - u)"
    using m0 by simp_all
  then have sum0: "0 \<le> sx + sy"
    using sx_b(1) sy_b(1) by linarith
  have t_b: "(sx + sy) * (1 - u) \<le> t" "t \<le> (sx + sy) * (1 + u)"
    using accurate_nonneg [OF a5 sum0] by (simp_all add: t_def)
  have "0 \<le> (sx + sy) * (1 - u)"
    using sum0 m0 by (rule mult_nonneg_nonneg)
  then have t0: "0 \<le> t"
    using t_b(1) by simp
  then have root0: "0 \<le> sqrt t"
    by simp
  have d_b: "sqrt t * (1 - u) \<le> d" "d \<le> sqrt t * (1 + u)"
    using accurate_nonneg [OF a6 root0] by (simp_all add: d_def)
  have "\<bar>d - sqrt (x * x + y * y)\<bar> \<le> 4 * u * sqrt (x * x + y * y)"
    by (rule length_bounds [OF u0 u1 dx dy sx_b sy_b t_b d_b])
  moreover have "fingertip_length fp thumbTip indexTip = d"
    by (simp add: fingertip_length_def Let_def d_def t_def sx_def sy_def dx_def dy_def x_def y_def)
  ultimately show ?thesis
    by (simp add: x_def y_def power2_eq_square)
qed


lemma sample_keypoints:
  "item (keypoints sample_hand) 4 = Some \<lparr>kp_x = 0, kp_y = 0\<rparr>"
  "item (keypoints sample_hand) 8 = Some \<lparr>kp_x = 3 / 8, kp_y = 1 / 2\<rparr>"
  by (simp_all add: item_Some sample_hand_def)

lemma sample_root: "sqrt (25 / 64) = 5 / 8"
  by (rule real_sqrt_unique) (simp_all add: power2_eq_square)

lemma sample_length:
  "fingertip_length sample_doubles \<lparr>kp_x = 0, kp_y = 0\<rparr> \<lparr>kp_x = 3 / 8, kp_y = 1 / 2\<rparr> = 5 / 8"
  by (simp add: fingertip_length_def sample_doubles_def Let_def sample_root)

lemma sample_tenths: "round_tenths (5 / 8) = 6"
  by (simp add: round_tenths_def floor_eq_iff)

lemma sample_text: "toFixed1 sample_doubles (5 / 8) = ''0.6''"
  by (simp add: toFixed1_def fixed1_def sample_tenths show_nat_digit digit_def Let_def)

lemma sample_distance:
  "fingertip_distance sample_doubles \<lparr>kp_x = 0, kp_y = 0\<rparr> \<lparr>kp_x = 3 / 8, kp_y = 1 / 2\<rparr>
     = ''0.6''"
  by (simp add: fingertip_distance_def sample_length sample_text)

lemma sample_rnd:
  "rnd sample_doubles x = (if x = 8 / 10 then 3602879701896397 / 4503599627370496 else x)"
  by (simp add: sample_doubles_def)

lemma sample_confident: "rnd sample_doubles (8 / 10) < confidence sample_hand"
  by (simp add: sample_doubles_def sample_hand_def)

lemma sample_frame:
  "filter is_report (drawFrame sample_doubles 640 480 True sample_tracker)
     = [FillText ''0.6px'' (83 / 16) (- 19 / 4), Callback ''0.6'' sample_hand]"
proof -
  have ready: "webcamReady sample_tracker"
    by (simp add: sample_tracker_def)
  have hands: "detectedHands sample_tracker = [sample_hand]"
    by (simp add: sample_tracker_def)
  show ?thesis
    unfolding drawFrame_reports [OF ready] hands
    by (simp add: drawHand_reports [OF sample_confident sample_keypoints] sample_distance
        sample_rnd)
qed

text \<open>
  C9, as amended. For every detected hand with confidence above the threshold (the
  double of \<^verbatim>\<open>0.8\<close>) whose thumb tip (keypoint 4) and index tip (keypoint 8) are
  present, the one text the frame draws for the hand and the one call of the caller's
  callback (when there is a callback) carry \<^verbatim>\<open>distance\<close>, which is not the exact
  Euclidean distance but the number \<open>d\<close> that \<^verbatim>\<open>Math.sqrt(dx * dx + dy * dy)\<close> computes
  in doubles, after \<^verbatim>\<open>toFixed(1)\<close>; the text is \<^verbatim>\<open>distance\<close> followed by \<^verbatim>\<open>px\<close>, at the
  computed midpoint shifted by \<open>(5, -5)\<close>. The texts and calls of a ready frame are
  those of its hands, in order. For \<open>d\<close> below \<^verbatim>\<open>1e21\<close>, \<^verbatim>\<open>distance\<close> is a decimal with
  one digit after the point, the nearest to \<open>d\<close>, so within 0.05 of \<open>d\<close>; and \<open>d\<close> is
  within a relative error of \<open>4 u\<close> of the exact Euclidean distance when each of its six
  results is rounded with a relative error of \<open>u\<close> at most, \<open>u\<close> at most 0.01.
\<close>

theorem fingertip_distance_reported:
  assumes "rnd fp (8 / 10) < confidence hnd"
    and "item (keypoints hnd) 4 = Some thumbTip" and "item (keypoints hnd) 8 = Some indexTip"
    and "d = fingertip_length fp thumbTip indexTip"
    and "exact = sqrt ((kp_x indexTip - kp_x thumbTip)\<^sup>2 + (kp_y indexTip - kp_y thumbTip)\<^sup>2)"
  shows "filter is_report (drawHand fp callback hnd)
           = FillText (toFixed1 fp d @ ''px'')
               (rnd fp (rnd fp (rnd fp (kp_x thumbTip + kp_x indexTip) / 2) + 5))
               (rnd fp (rnd fp (rnd fp (kp_y thumbTip + kp_y indexTip) / 2) - 5))
             # (if callback then [Callback (toFixed1 fp d) hnd] else [])
         \<and> (webcamReady st \<longrightarrow>
              filter is_report (drawFrame fp w h callback st)
                = concat (map (\<lambda>x. filter is_report (drawHand fp callback x)) (detectedHands st)))
         \<and> (0 \<le> d \<longrightarrow> d < 10 ^ 21 \<longrightarrow>
              toFixed1 fp d = show_nat (nat (round_tenths d) div 10) @ ''.''
                                @ [digit (nat (round_tenths d) mod 10)]
              \<and> \<bar>real_of_int (round_tenths d) / 10 - d\<bar> \<le> 1 / 20)
         \<and> (0 \<le> u \<longrightarrow> u \<le> 1 / 100 \<longrightarrow> length_accurate fp u thumbTip indexTip \<longrightarrow>
              \<bar>d - exact\<bar> \<le> 4 * u * exact)"
proof (intro conjI impI)
  show "filter is_report (drawHand fp callback hnd)
           = FillText (toFixed1 fp d @ ''px'')
               (rnd fp (rnd fp (rnd fp (kp_x thumbTip + kp_x indexTip) / 2) + 5))
               (rnd fp (rnd fp (rnd fp (kp_y thumbTip + kp_y indexTip) / 2) - 5))
             # (if callback then [Callback (toFixed1 fp d) hnd] else [])"
    unfolding assms(4) using drawHand_reports [OF assms(1-3), of callback]
    by (simp add: fingertip_distance_def)
next
  assume "webcamReady st"
  then show "filter is_report (drawFrame fp w h callback st)
      = concat (map (\<lambda>x. filter is_report (drawHand fp callback x)) (detectedHands st))"
    by (rule drawFrame_reports)
next
  assume "0 \<le> d" and "d < 10 ^ 21"
  then show "toFixed1 fp d = show_nat (nat (round_tenths d) div 10) @ ''.''
                                @ [digit (nat (round_tenths d) mod 10)]"
    by (rule toFixed1_digits)
next
  show "\<bar>real_of_int (round_tenths d) / 10 - d\<bar> \<le> 1 / 20"
    by (rule round_tenths_near)
next
  assume "0 \<le> u" and "u \<le> 1 / 100" and "length_accurate fp u thumbTip indexTip"
  then show "\<bar>d - exact\<bar> \<le> 4 * u * exact"
    unfolding assms(4,5) by (rule fingertip_length_near)
qed

text \<open>
  The sample hand, thumb tip at \<open>(0, 0)\<close> and index tip at \<open>(0.375, 0.5)\<close>, at the
  exact distance 0.625: the frame draws \<^verbatim>\<open>0.6px\<close> at \<open>(5.1875, -4.75)\<close> and calls the
  callback with \<^verbatim>\<open>0.6\<close>.
\<close>

theorem fingertip_distance_reported_witness:
  "filter is_report (drawFrame sample_doubles 640 480 True sample_tracker)
     = [FillText ''0.6px'' (83 / 16) (- 19 / 4), Callback ''0.6'' sample_hand]
   \<and> toFixed1 sample_doubles (5 / 8) = ''0.6''
   \<and> \<bar>real_of_int (round_tenths (5 / 8)) / 10 - 5 / 8\<bar> \<le> 1 / 20
   \<and> \<bar>(5 / 8 :: real) - sqrt ((3 / 8 - 0)\<^sup>2 + (1 / 2 - 0)\<^sup>2)\<bar>
       \<le> 4 * 0 * sqrt ((3 / 8 - 0)\<^sup>2 + (1 / 2 - 0)\<^sup>2)"
proof -
  have ready: "webcamReady sample_tracker"
    by (simp add: sample_tracker_def)
  have hands: "detectedHands sample_tracker = [sample_hand]"
    by (simp add: sample_tracker_def)
  have len: "5 / 8 = fingertip_length sample_doubles \<lparr>kp_x = 0, kp_y = 0\<rparr>
                        \<lparr>kp_x = 3 / 8, kp_y = 1 / 2\<rparr>"
    by (simp add: sample_length)
  have exact: "sqrt ((3 / 8 - 0)\<^sup>2 + (1 / 2 - 0)\<^sup>2)
      = sqrt ((kp_x \<lparr>kp_x = 3 / 8, kp_y = 1 / 2\<rparr> - kp_x \<lparr>kp_x = 0, kp_y = 0\<rparr>)\<^sup>2
              + (kp_y \<lparr>kp_x = 3 / 8, kp_y = 1 / 2\<rparr> - kp_y \<lparr>kp_x = 0, kp_y = 0\<rparr>)\<^sup>2)"
    by simp
  have acc: "length_accurate sample_doubles 0 \<lparr>kp_x = 0, kp_y = 0\<rparr> \<lparr>kp_x = 3 / 8, kp_y = 1 / 2\<rparr>"
    by (simp add: length_accurate_def accurate_def sample_doubles_def Let_def sample_root)
  note reported = fingertip_distance_reported [OF sample_confident sample_keypoints len exact,
      where callback = True and st = sample_tracker and w = 640 and h = 480 and u = 0]
  have frame: "filter is_report (drawFrame sample_doubles 640 480 True sample_tracker)
     = [FillText ''0.6px'' (83 / 16) (- 19 / 4), Callback ''0.6'' sample_hand]"
    using reported [THEN conjunct1] reported [THEN conjunct2, THEN conjunct1] ready
    by (simp add: hands sample_text sample_rnd)
  have digits: "toFixed1 sample_doubles (5 / 8) = ''0.6''
      \<and> \<bar>real_of_int (round_tenths (5 / 8)) / 10 - 5 / 8\<bar> \<le> 1 / 20"
    using reported [THEN conjunct2, THEN conjunct2, THEN conjunct1]
    by (simp add: sample_text)
  have near: "\<bar>(5 / 8 :: real) - sqrt ((3 / 8 - 0)\<^sup>2 + (1 / 2 - 0)\<^sup>2)\<bar>
       \<le> 4 * 0 * sqrt ((3 / 8 - 0)\<^sup>2 + (1 / 2 - 0)\<^sup>2)"
    using reported [THEN conjunct2, THEN conjunct2, THEN conjunct2] acc
    by simp
  show ?thesis
    using frame digits near by blast
qed

text \<open>
  C9 as stated fails: for the sample hand the exact Euclidean distance is 0.625, and
  what the frame draws and hands to the callback is \<^verbatim>\<open>0.6\<close>.
\<close>

theorem fingertip_distance_counterexample:
  "fingertip_distance sample_doubles \<lparr>kp_x = 0, kp_y = 0\<rparr> \<lparr>kp_x = 3 / 8, kp_y = 1 / 2\<rparr>
     = ''0.6''
   \<and> filter is_report (drawFrame sample_doubles 640 480 True sample_tracker)
     = [FillText ''0.6px'' (83 / 16) (- 19 / 4), Callback ''0.6'' sample_hand]
   \<and> sqrt ((3 / 8 - 0)\<^sup>2 + (1 / 2 - 0)\<^sup>2) = 5 / 8
   \<and> (5 / 8 :: real) \<noteq> 6 / 10"
proof -
  have "sqrt ((3 / 8 - 0)\<^sup>2 + (1 / 2 - 0)\<^sup>2) = sqrt (25 / 64)"
    by (simp add: power2_eq_square)
  then have "sqrt ((3 / 8 - 0)\<^sup>2 + (1 / 2 - 0)\<^sup>2) = 5 / 8"
    by (simp only: sample_root)
  then show ?thesis
    using sample_distance sample_frame by simp
qed
end
